theory Spec2Isabelle
  imports Complex_Main "HOL-Library.AList"
begin

section \<open>SyncVision: the warehouse reconciliation engine\<close>

text \<open>
  A shallow embedding of \<^verbatim>\<open>warehouse_sync_module/models/warehouse_sync.py\<close> and
  \<^verbatim>\<open>warehouse_missing_products.py\<close>: the identifier normaliser, the stock rule, the
  matcher, the chunked driver, the missing-product resolver with its relaxed-match guard
  on \<^verbatim>\<open>create\<close>, the purge of old records and the run entry point.
\<close>

subsection \<open>Python values and strings\<close>

text \<open>
  A raw identifier is what the ORM or the JSON feed hands over: \<^verbatim>\<open>None\<close> (JSON null, a
  missing key), \<^verbatim>\<open>False\<close> (Odoo's value of an empty Char field) or a string.
  \<^verbatim>\<open>str(value)\<close> and truthiness are the two things the code does with it.
\<close>

datatype pyval = PNone | PFalse | PStr string

fun py_str :: "pyval \<Rightarrow> string" where
  "py_str PNone = ''None''"
| "py_str PFalse = ''False''"
| "py_str (PStr s) = s"

fun truthy :: "pyval \<Rightarrow> bool" where
  "truthy PNone = False"
| "truthy PFalse = False"
| "truthy (PStr s) = (s \<noteq> [])"

text \<open>
  Character classes, for ASCII text: \<^verbatim>\<open>str.isalnum\<close>, \<^verbatim>\<open>str.upper\<close>, \<^verbatim>\<open>str.lower\<close> and the
  whitespace that \<^verbatim>\<open>str.strip()\<close> removes (tab, LF, VT, FF, CR, the four separators
  0x1C..0x1F and the space). Characters outside ASCII are left alone by these definitions,
  which is not what Python does with them; the general statements below are therefore
  made for ASCII input (\<open>ascii\<close>).
\<close>

definition ascii_lowercase :: string where
  "ascii_lowercase = ''abcdefghijklmnopqrstuvwxyz''"

definition ascii_uppercase :: string where
  "ascii_uppercase = ''ABCDEFGHIJKLMNOPQRSTUVWXYZ''"

definition digits :: string where
  "digits = ''0123456789''"

definition whitespace :: string where
  "whitespace = [CHR 0x09, CHR 0x0A, CHR 0x0B, CHR 0x0C, CHR 0x0D,
                 CHR 0x1C, CHR 0x1D, CHR 0x1E, CHR 0x1F, CHR '' '']"

definition isspace :: "char \<Rightarrow> bool" where
  "isspace c = (c \<in> set whitespace)"

definition isalnum :: "char \<Rightarrow> bool" where
  "isalnum c = (c \<in> set digits \<or> c \<in> set ascii_uppercase \<or> c \<in> set ascii_lowercase)"

definition upper_char :: "char \<Rightarrow> char" where
  "upper_char c =
     (case map_of (zip ascii_lowercase ascii_uppercase) c of Some u \<Rightarrow> u | None \<Rightarrow> c)"

definition lower_char :: "char \<Rightarrow> char" where
  "lower_char c =
     (case map_of (zip ascii_uppercase ascii_lowercase) c of Some l \<Rightarrow> l | None \<Rightarrow> c)"

definition upper :: "string \<Rightarrow> string" where
  "upper s = map upper_char s"

definition lower :: "string \<Rightarrow> string" where
  "lower s = map lower_char s"

definition strip :: "string \<Rightarrow> string" where
  "strip s = rev (dropWhile isspace (rev (dropWhile isspace s)))"

definition ascii :: "string \<Rightarrow> bool" where
  "ascii s = list_all (\<lambda>c. \<not> digit7 c) s"

definition ascii_val :: "pyval \<Rightarrow> bool" where
  "ascii_val v = ascii (py_str v)"

subsection \<open>Identifier normaliser\<close>

text \<open>\<^verbatim>\<open>_sanitize_identifier\<close>: the trimmed text, or the empty string for \<^verbatim>\<open>None\<close>, blank
  text and the four placeholders.\<close>

definition placeholders :: "string list" where
  "placeholders = [''none'', ''null'', ''n/a'', ''na'']"

definition sanitize_identifier :: "pyval \<Rightarrow> string" where
  "sanitize_identifier v =
     (case v of
        PNone \<Rightarrow> []
      | _ \<Rightarrow>
        (let value_str = strip (py_str v) in
         if value_str = [] then []
         else if lower value_str \<in> set placeholders then []
         else value_str))"

text \<open>\<^verbatim>\<open>_normalize_identifier\<close>: \<^verbatim>\<open>None\<close> for a falsy value, for blank text and for the
  text \<^verbatim>\<open>none\<close>; otherwise the alphanumeric characters, upper-cased, or \<^verbatim>\<open>None\<close> when
  there are none. It does not call \<^verbatim>\<open>_sanitize_identifier\<close>; its callers do.\<close>

definition normalize_identifier :: "pyval \<Rightarrow> string option" where
  "normalize_identifier v =
     (if \<not> truthy v then None
      else
        (let value_str = strip (py_str v) in
         if value_str = [] \<or> lower value_str = ''none'' then None
         else
           (let normalized = filter isalnum value_str in
            if normalized = [] then None else Some (upper normalized))))"


text \<open>The test \<^verbatim>\<open>has_sku\<close> / \<^verbatim>\<open>has_barcode\<close> of \<^verbatim>\<open>_process_single_product\<close>:
  \<^verbatim>\<open>bool(raw and str(raw).strip() and str(raw).strip().lower() not in [...])\<close>.\<close>

definition has_identifier :: "pyval \<Rightarrow> bool" where
  "has_identifier raw =
     (truthy raw \<and> strip (py_str raw) \<noteq> [] \<and>
      lower (strip (py_str raw)) \<notin> set [''none'', ''null'', ''n/a'', ''na'', ''''])"

text \<open>What "differing only in letter case or in non-alphanumeric characters" compares: the
  alphanumeric characters, upper-cased. And the one text the normaliser itself rejects.\<close>

definition alnum_key :: "string \<Rightarrow> string" where
  "alnum_key s = upper (filter isalnum s)"

definition is_none_text :: "string \<Rightarrow> bool" where
  "is_none_text s = (lower (strip s) = ''none'')"

text \<open>The normaliser as the specification words it: sanitize first, null when that is
  empty, otherwise the alphanumeric characters upper-cased, null when none is left. A
  null input is \<^verbatim>\<open>None\<close> or the \<^verbatim>\<open>False\<close> that the ORM gives for an empty field.\<close>

definition sanitize_spec :: "pyval \<Rightarrow> string" where
  "sanitize_spec raw =
     (if raw = PNone \<or> raw = PFalse then []
      else if strip (py_str raw) = [] then []
      else if lower (strip (py_str raw)) \<in> {''none'', ''null'', ''n/a'', ''na''} then []
      else strip (py_str raw))"

definition normalize_spec :: "pyval \<Rightarrow> string option" where
  "normalize_spec raw =
     (if sanitize_spec raw = [] then None
      else if filter isalnum (sanitize_spec raw) = [] then None
      else Some (upper (filter isalnum (sanitize_spec raw))))"

subsection \<open>Stock rule\<close>

text \<open>
  A feed quantity is a Python float: a finite number, an infinity or NaN
  (\<^verbatim>\<open>float(item.get("southbayStock") or 0.0)\<close>). The rule only compares it with integer
  constants, which is exact, so a finite float is modelled by the real number it denotes.
  Every comparison with NaN is false.
\<close>

datatype pyfloat = Fin real | PosInf | NegInf | NaN

fun f_eq :: "pyfloat \<Rightarrow> real \<Rightarrow> bool" where
  "f_eq (Fin x) r = (x = r)"
| "f_eq _ r = False"

fun f_lt :: "pyfloat \<Rightarrow> real \<Rightarrow> bool" where
  "f_lt (Fin x) r = (x < r)"
| "f_lt NegInf r = True"
| "f_lt _ r = False"

fun f_le :: "pyfloat \<Rightarrow> real \<Rightarrow> bool" where
  "f_le (Fin x) r = (x \<le> r)"
| "f_le NegInf r = True"
| "f_le _ r = False"

fun f_gt :: "pyfloat \<Rightarrow> real \<Rightarrow> bool" where
  "f_gt (Fin x) r = (r < x)"
| "f_gt PosInf r = True"
| "f_gt _ r = False"

fun f_ge :: "pyfloat \<Rightarrow> real \<Rightarrow> bool" where
  "f_ge (Fin x) r = (r \<le> x)"
| "f_ge PosInf r = True"
| "f_ge _ r = False"

text \<open>The \<^verbatim>\<open>if/elif\<close> chain "Apply stock rules" of \<^verbatim>\<open>_process_single_product\<close> (the same
  chain stands in \<^verbatim>\<open>sync_products\<close>); the last branch keeps \<^verbatim>\<open>product.qty_available\<close>.\<close>

definition stock_rule :: "pyfloat \<Rightarrow> real \<Rightarrow> real" where
  "stock_rule qty qty_available =
     (if f_eq qty 0 then 0
      else if f_ge qty 30 \<and> f_le qty 50 then 2
      else if f_lt qty 30 then 0
      else if f_gt qty 50 \<and> f_lt qty 200 then 5
      else if f_ge qty 200 then 10
      else qty_available)"

text \<open>The five conditions of the specification's table, in its order.\<close>

definition tier_conditions :: "real \<Rightarrow> bool list" where
  "tier_conditions q =
     [q = 0, 30 \<le> q \<and> q \<le> 50, 0 < q \<and> q < 30, 50 < q \<and> q < 200, 200 \<le> q]"

subsection \<open>Feed ingestion\<close>

text \<open>
  One item of the feed's \<^verbatim>\<open>data\<close> array, and the response of the single HTTP fetch: a
  transport error, a timeout, a body that is not JSON, or an envelope with its
  \<^verbatim>\<open>success\<close> flag and its \<^verbatim>\<open>data\<close> array (\<open>None\<close> when the key is absent). Items are
  well-typed objects; a stock that is absent or null is \<open>None\<close>.
\<close>

record feed_item =
  item_sku :: pyval
  item_barcode :: pyval
  item_number :: pyval
  item_brand :: pyval
  southbay_stock :: "pyfloat option"

datatype feed_response =
  Transport_error | Timeout | Not_json | Envelope bool "feed_item list option"

text \<open>The dictionary \<^verbatim>\<open>entry\<close>; \<open>normalized_sku\<close> is \<open>None\<close> when the key was never set.\<close>

record api_entry =
  ext_id :: string
  qty :: pyfloat
  sku :: string
  barcode :: "string option"
  brand :: string
  normalized_sku :: "string option"

text \<open>The two lookup dictionaries, in insertion order (a later item with the same key
  replaces the value and keeps the position, as a Python \<^verbatim>\<open>dict\<close> does).\<close>

record api_data =
  by_sku :: "(string \<times> api_entry) list"
  by_barcode :: "(string \<times> api_entry) list"

text \<open>Truthiness of a normalised key: not \<^verbatim>\<open>None\<close> and not empty.\<close>

fun key_truthy :: "string option \<Rightarrow> bool" where
  "key_truthy None = False"
| "key_truthy (Some k) = (k \<noteq> [])"

definition add_feed_item :: "feed_item \<Rightarrow> api_data \<Rightarrow> api_data" where
  "add_feed_item item d =
     (let sku_s = sanitize_identifier (item_sku item);
          barcode_s = sanitize_identifier (item_barcode item);
          entry = \<lparr> ext_id = sanitize_identifier (item_number item),
                    qty = (case southbay_stock item of None \<Rightarrow> Fin 0 | Some q \<Rightarrow> q),
                    sku = sku_s,
                    barcode = (if barcode_s \<noteq> [] \<and> lower barcode_s \<noteq> ''none''
                               then Some barcode_s else None),
                    brand = sanitize_identifier (item_brand item),
                    normalized_sku = None \<rparr>;
          n_sku = normalize_identifier (PStr sku_s);
          entry1 = (if key_truthy n_sku then entry\<lparr>normalized_sku := n_sku\<rparr> else entry);
          d1 = (case n_sku of
                  Some k \<Rightarrow> if k \<noteq> [] then d\<lparr>by_sku := AList.update k entry1 (by_sku d)\<rparr> else d
                | None \<Rightarrow> d);
          n_barcode = normalize_identifier (PStr barcode_s)
      in (case n_barcode of
            Some k \<Rightarrow>
              if k \<noteq> [] then d1\<lparr>by_barcode := AList.update k entry1 (by_barcode d1)\<rparr> else d1
          | None \<Rightarrow> d1))"

text \<open>\<^verbatim>\<open>_fetch_api_data\<close>: \<^verbatim>\<open>None\<close> on every failure (each exception is caught and logged
  there), the two dictionaries otherwise.\<close>

fun fetch_api_data :: "feed_response \<Rightarrow> api_data option" where
  "fetch_api_data Transport_error = None"
| "fetch_api_data Timeout = None"
| "fetch_api_data Not_json = None"
| "fetch_api_data (Envelope success None) = None"
| "fetch_api_data (Envelope success (Some items)) =
     (if \<not> success then None
      else Some (fold add_feed_item items \<lparr> by_sku = [], by_barcode = [] \<rparr>))"

subsection \<open>The stores\<close>

text \<open>
  A \<^verbatim>\<open>product.product\<close> row with the fields the engine reads; \<open>detailed_type\<close> is
  \<^verbatim>\<open>False\<close> where the field does not exist, \<open>tmpl_brand\<close> is the brand of the template.
\<close>

record product =
  p_id :: nat
  default_code :: pyval
  p_barcode :: pyval
  qty_available :: real
  detailed_type :: pyval
  p_type :: string
  p_active :: bool
  product_tmpl_id :: "nat option"
  tmpl_brand :: pyval

record template =
  t_default_code :: pyval
  product_variant_ids :: "nat list"

datatype run_status = Success | Fail

datatype note_text = Skipped | No_api_match | Low_stock | Stock_updated real real | Stock_ok

text \<open>A note of the sync log: the note of one item with the parts named in its
  "(missing ... - UNPUBLISHED)" suffix, or the run's summary "Sync status: message".\<close>

datatype log_note = Item_note note_text "string list" | Sync_summary run_status string

text \<open>A SKU column: a text, or the \<^verbatim>\<open>NO_SKU_<id>\<close> label of a product without one.\<close>

datatype sku_label = Sku string | No_sku nat

record log_entry =
  l_sku :: sku_label
  l_brand :: "string option"
  l_main_id :: "string option"
  l_barcode :: "string option"
  l_quantity :: real
  l_alert :: bool
  l_note :: log_note

record unpublished_entry =
  u_sku :: sku_label
  u_brand :: string
  u_main_id :: "string option"
  u_barcode :: "string option"
  u_quantity :: pyfloat
  u_missing_fields :: string
  u_sync_date :: int
  u_reason :: string
  u_api_quantity :: "pyfloat option"

datatype status = Missing | Created | Ignored

text \<open>The note of a missing-product record: the resolver's two texts (with the API
  quantity), and the guard's "Ignored: SKU matches existing product. Product ID n",
  appended to the note the values came with, if any.\<close>

datatype missing_note =
  Found_missing pyfloat | Still_missing pyfloat | Guard_ignored "missing_note option" nat

record missing_record =
  m_sku :: string
  m_brand :: "string option"
  m_main_id :: "string option"
  m_barcode :: "string option"
  m_quantity :: pyfloat
  m_create_date :: int
  m_sync_date :: int
  m_status :: status
  m_note :: "missing_note option"

record panel =
  filter_missing_products :: bool
  allowed_prefixes :: pyval
  send_email_report :: bool

datatype error = External_id_not_found | Range_step_zero

text \<open>
  The database and what the run reads from its surroundings. Tables are lists in search
  order; \<open>products\<close> holds every product, archived ones too. \<open>website_published\<close> maps
  a template id to its flag, \<open>stock_quant\<close> a product id to the inventory quantity
  applied at the stock location. \<open>stock_location\<close> is what
  \<^verbatim>\<open>env.ref("stock.stock_location_stock")\<close> finds (\<open>None\<close>: it raises), \<open>commit_fails n\<close>
  tells whether the commit after chunk \<open>n\<close> raises, \<open>now\<close> is the clock in seconds.
  All other ORM calls are taken to succeed.
\<close>

record env =
  products :: "product list"
  templates :: "template list"
  website_published :: "nat \<Rightarrow> bool"
  stock_quant :: "nat \<Rightarrow> real option"
  sync_log :: "log_entry list"
  unpublished_products :: "unpublished_entry list"
  missing_products :: "missing_record list"
  panel_config :: "panel option"
  stock_location :: "nat option"
  commit_fails :: "nat \<Rightarrow> bool"
  now :: int

subsection \<open>Matcher and per-item processing\<close>

definition is_stockable_product :: "product \<Rightarrow> bool" where
  "is_stockable_product p =
     (if truthy (detailed_type p) then detailed_type p = PStr ''product''
      else p_type p = ''product'')"

text \<open>\<^verbatim>\<open>key and key in table\<close>, then \<^verbatim>\<open>table[key]\<close>.\<close>

definition lookup_key :: "(string \<times> api_entry) list \<Rightarrow> string option \<Rightarrow> api_entry option" where
  "lookup_key table key =
     (case key of None \<Rightarrow> None | Some k \<Rightarrow> if k = [] then None else map_of table k)"

text \<open>"Look up this product in API data": the matched entry and \<^verbatim>\<open>processed_sku\<close>.\<close>

definition lookup_api ::
  "api_data \<Rightarrow> string option \<Rightarrow> string option \<Rightarrow> api_entry option \<times> string option" where
  "lookup_api d n_sku n_barcode =
     (case lookup_key (by_sku d) n_sku of
        Some e \<Rightarrow> (Some e, n_sku)
      | None \<Rightarrow>
          (case lookup_key (by_barcode d) n_barcode of
             Some e \<Rightarrow> (Some e, if key_truthy (normalized_sku e) then normalized_sku e else None)
           | None \<Rightarrow> (None, None)))"

definition join_and :: "string list \<Rightarrow> string" where
  "join_and parts =
     (case parts of [] \<Rightarrow> [] | p # ps \<Rightarrow> foldl (\<lambda>acc q. acc @ '' and '' @ q) p ps)"

text \<open>\<^verbatim>\<open>_update_product_stock\<close>: \<^verbatim>\<open>env.ref\<close> raises when the location is unknown; otherwise
  the quant of the product at the location is written or created, and applied.\<close>

definition update_product_stock :: "product \<Rightarrow> real \<Rightarrow> env \<Rightarrow> error + env" where
  "update_product_stock p new_qty s =
     (case stock_location s of
        None \<Rightarrow> Inl External_id_not_found
      | Some location \<Rightarrow> Inr (s\<lparr>stock_quant := (stock_quant s)(p_id p \<mapsto> new_qty)\<rparr>))"

definition missing_parts_of :: "bool \<Rightarrow> bool \<Rightarrow> string list" where
  "missing_parts_of has_sku has_barcode =
     (if \<not> has_sku \<and> \<not> has_barcode then [''SKU'', ''barcode'']
      else if \<not> has_sku then [''SKU'']
      else if \<not> has_barcode then [''barcode'']
      else [])"

definition unpublish_reason_of :: "bool \<Rightarrow> bool \<Rightarrow> string" where
  "unpublish_reason_of has_sku has_barcode =
     (if \<not> has_sku \<and> \<not> has_barcode then ''Missing both SKU and barcode''
      else if \<not> has_sku then ''Missing SKU''
      else if \<not> has_barcode then ''Missing barcode''
      else ''Unknown reason'')"

text \<open>The row that \<^verbatim>\<open>_handle_product_publishing\<close> creates for an unpublished product, at
  time \<open>t\<close>: it names the product by its raw SKU (or \<^verbatim>\<open>NO_SKU_<id>\<close>) and the fields that
  are missing.\<close>

definition unpublished_row ::
  "product \<Rightarrow> bool \<Rightarrow> bool \<Rightarrow> api_entry option \<Rightarrow> pyfloat \<Rightarrow> int \<Rightarrow> unpublished_entry" where
  "unpublished_row p has_sku has_barcode api q t =
     \<lparr> u_sku = (if truthy (default_code p) then Sku (py_str (default_code p))
                else No_sku (p_id p)),
       u_brand = (case api of
                    Some e \<Rightarrow> brand e
                  | None \<Rightarrow> if truthy (tmpl_brand p) then py_str (tmpl_brand p) else ''Unknown''),
       u_main_id = (case api of Some e \<Rightarrow> Some (ext_id e) | None \<Rightarrow> None),
       u_barcode = (if truthy (p_barcode p) \<and> lower (py_str (p_barcode p)) \<noteq> ''none''
                    then Some (py_str (p_barcode p)) else None),
       u_quantity = (case api of Some e \<Rightarrow> q | None \<Rightarrow> Fin 0),
       u_missing_fields = (if missing_parts_of has_sku has_barcode = [] then ''Other''
                           else join_and (missing_parts_of has_sku has_barcode)),
       u_sync_date = t,
       u_reason = unpublish_reason_of has_sku has_barcode,
       u_api_quantity = (case api of Some e \<Rightarrow> Some q | None \<Rightarrow> None) \<rparr>"

text \<open>\<^verbatim>\<open>_handle_product_publishing\<close>: nothing without a template; otherwise the flag is
  written, and an unpublished-products row is created when it is false.\<close>

definition handle_product_publishing ::
  "product \<Rightarrow> bool \<Rightarrow> bool \<Rightarrow> api_entry option \<Rightarrow> pyfloat \<Rightarrow> env \<Rightarrow> env" where
  "handle_product_publishing p has_sku has_barcode api q s =
     (case product_tmpl_id p of
        None \<Rightarrow> s
      | Some tmpl \<Rightarrow>
          (let publish = (has_sku \<and> has_barcode);
               s1 = s\<lparr>website_published := (website_published s)(tmpl := publish)\<rparr>
           in if publish then s1
              else s1\<lparr>unpublished_products :=
                        unpublished_products s1 @
                        [unpublished_row p has_sku has_barcode api q (now s1)]\<rparr>))"

text \<open>The note and the row of "Create log entry" in \<^verbatim>\<open>_process_single_product\<close>, from
  the local variables of that method.\<close>

definition item_note ::
  "bool \<Rightarrow> bool \<Rightarrow> bool \<Rightarrow> api_entry option \<Rightarrow> bool \<Rightarrow> real \<Rightarrow> real \<Rightarrow> log_note" where
  "item_note should_process has_sku has_barcode api alert new_qty odoo_qty =
     (if \<not> should_process then Item_note Skipped []
      else Item_note
             (if api = None then No_api_match
              else if alert then Low_stock
              else if new_qty \<noteq> odoo_qty then Stock_updated odoo_qty new_qty
              else Stock_ok)
             (if api \<noteq> None \<and> \<not> (has_sku \<and> has_barcode)
              then (if \<not> has_sku then [''SKU''] else []) @
                   (if \<not> has_barcode then [''barcode''] else [])
              else []))"

definition sync_log_row ::
  "product \<Rightarrow> string \<Rightarrow> string \<Rightarrow> api_entry option \<Rightarrow> real \<Rightarrow> bool \<Rightarrow> log_note \<Rightarrow> log_entry" where
  "sync_log_row p sku_s barcode_s api new_qty alert note =
     \<lparr> l_sku = (if sku_s \<noteq> [] then Sku sku_s else No_sku (p_id p)),
       l_brand = (case api of Some e \<Rightarrow> Some (brand e) | None \<Rightarrow> None),
       l_main_id = (case api of
                      Some e \<Rightarrow> if ext_id e \<noteq> [] then Some (ext_id e) else None
                    | None \<Rightarrow> None),
       l_barcode = (if barcode_s \<noteq> [] \<and> lower barcode_s \<noteq> ''none''
                    then Some barcode_s else None),
       l_quantity = new_qty,
       l_alert = alert,
       l_note = note \<rparr>"

text \<open>\<^verbatim>\<open>_process_single_product\<close>. The result is the exception raised or the returned
  \<^verbatim>\<open>processed_sku\<close>; the state is the one reached in either case (the log row written
  before a failing stock update stays).\<close>

definition process_single_product ::
  "api_data \<Rightarrow> product \<Rightarrow> env \<Rightarrow> (error + string option) \<times> env" where
  "process_single_product d p s =
     (let raw_sku = default_code p;
          raw_barcode = p_barcode p;
          has_sku = has_identifier raw_sku;
          has_barcode = has_identifier raw_barcode;
          sku_s = sanitize_identifier raw_sku;
          barcode_s = sanitize_identifier raw_barcode;
          n_sku = normalize_identifier (PStr sku_s);
          n_barcode = normalize_identifier (PStr barcode_s);
          should_process = (has_sku \<or> has_barcode);
          is_stockable = is_stockable_product p;
          (api, processed_sku) = lookup_api d n_sku n_barcode;
          q = (case api of Some e \<Rightarrow> qty e | None \<Rightarrow> Fin 0);
          new_qty = stock_rule q (qty_available p);
          odoo_qty = qty_available p;
          alert = (new_qty < 5);
          note = item_note should_process has_sku has_barcode api alert new_qty odoo_qty;
          s1 = s\<lparr>sync_log := sync_log s @
                               [sync_log_row p sku_s barcode_s api new_qty alert note]\<rparr>
      in if should_process \<and> is_stockable \<and> new_qty \<noteq> odoo_qty
         then (case update_product_stock p new_qty s1 of
                 Inl e \<Rightarrow> (Inl e, s1)
               | Inr s2 \<Rightarrow>
                   (Inr processed_sku, handle_product_publishing p has_sku has_barcode api q s2))
         else (Inr processed_sku, handle_product_publishing p has_sku has_barcode api q s1))"

text \<open>Names for what the method computes for one product: the match, the feed quantity
  used, the new quantity, and whether the stock is written.\<close>

definition item_match :: "api_data \<Rightarrow> product \<Rightarrow> api_entry option \<times> string option" where
  "item_match d p =
     lookup_api d (normalize_identifier (PStr (sanitize_identifier (default_code p))))
                  (normalize_identifier (PStr (sanitize_identifier (p_barcode p))))"

definition item_qty :: "api_data \<Rightarrow> product \<Rightarrow> pyfloat" where
  "item_qty d p = (case fst (item_match d p) of Some e \<Rightarrow> qty e | None \<Rightarrow> Fin 0)"

definition item_new_qty :: "api_data \<Rightarrow> product \<Rightarrow> real" where
  "item_new_qty d p = stock_rule (item_qty d p) (qty_available p)"

definition stock_changes :: "api_data \<Rightarrow> product \<Rightarrow> bool" where
  "stock_changes d p =
     ((has_identifier (default_code p) \<or> has_identifier (p_barcode p)) \<and>
      is_stockable_product p \<and> item_new_qty d p \<noteq> qty_available p)"

definition item_log_row :: "api_data \<Rightarrow> product \<Rightarrow> log_entry" where
  "item_log_row d p =
     sync_log_row p (sanitize_identifier (default_code p)) (sanitize_identifier (p_barcode p))
       (fst (item_match d p)) (item_new_qty d p) (item_new_qty d p < 5)
       (item_note (has_identifier (default_code p) \<or> has_identifier (p_barcode p))
          (has_identifier (default_code p)) (has_identifier (p_barcode p))
          (fst (item_match d p)) (item_new_qty d p < 5) (item_new_qty d p) (qty_available p))"

definition item_publishing :: "api_data \<Rightarrow> product \<Rightarrow> env \<Rightarrow> env" where
  "item_publishing d p s =
     handle_product_publishing p (has_identifier (default_code p)) (has_identifier (p_barcode p))
       (fst (item_match d p)) (item_qty d p) s"

text \<open>The value of \<^verbatim>\<open>publish\<close> for a product, and the row created for it when that is
  false.\<close>

definition item_publish :: "product \<Rightarrow> bool" where
  "item_publish p = (has_identifier (default_code p) \<and> has_identifier (p_barcode p))"

definition item_unpublished_row :: "api_data \<Rightarrow> product \<Rightarrow> int \<Rightarrow> unpublished_entry" where
  "item_unpublished_row d p t =
     unpublished_row p (has_identifier (default_code p)) (has_identifier (p_barcode p))
       (fst (item_match d p)) (item_qty d p) t"

subsection \<open>Chunked driver\<close>

text \<open>\<^verbatim>\<open>if processed_sku: processed_skus.add(processed_sku)\<close>.\<close>

fun add_processed :: "string option \<Rightarrow> string set \<Rightarrow> string set" where
  "add_processed None skus = skus"
| "add_processed (Some k) skus = (if k = [] then skus else insert k skus)"

text \<open>\<^verbatim>\<open>_process_product_chunk\<close>: the loop over the products of one chunk, with the
  \<^verbatim>\<open>try/except ... continue\<close> around each product. It returns the count of products
  processed without an exception and their matched SKUs.\<close>

fun process_product_loop ::
  "api_data \<Rightarrow> product list \<Rightarrow> nat \<times> string set \<Rightarrow> env \<Rightarrow> (nat \<times> string set) \<times> env" where
  "process_product_loop d [] acc s = (acc, s)"
| "process_product_loop d (p # ps) (processed_count, processed_skus) s =
     (case process_single_product d p s of
        (Inr processed_sku, s1) \<Rightarrow>
          process_product_loop d ps
            (processed_count + 1, add_processed processed_sku processed_skus) s1
      | (Inl e, s1) \<Rightarrow>
          process_product_loop d ps (processed_count, processed_skus) s1)"

definition process_product_chunk ::
  "api_data \<Rightarrow> product list \<Rightarrow> env \<Rightarrow> (nat \<times> string set) \<times> env" where
  "process_product_chunk d chunk s = process_product_loop d chunk (0, {}) s"

text \<open>The slices \<^verbatim>\<open>all_products[i:i + chunk_size]\<close> for \<^verbatim>\<open>i in range(0, total, chunk_size)\<close>,
  for a positive chunk size.\<close>

function chunks :: "nat \<Rightarrow> 'a list \<Rightarrow> 'a list list" where
  "chunks n xs = (if n = 0 \<or> xs = [] then [] else take n xs # chunks n (drop n xs))"
  by pat_completeness auto
termination
  by (relation "measure (\<lambda>(n, xs). length xs)") auto

declare chunks.simps [simp del]

text \<open>The counters of the driver, which it writes to its log at the end.\<close>

record sync_stats =
  processed :: nat
  failed :: nat
  matched_skus :: "string set"

text \<open>The body of the \<^verbatim>\<open>for\<close> loop of \<^verbatim>\<open>sync_products_chunked\<close>, chunk \<open>chunk_num\<close>
  first: the chunk is processed and its counts added, then the commit; an exception
  there adds the chunk's length to \<open>failed\<close> and the loop goes on.\<close>

fun chunk_loop ::
  "api_data \<Rightarrow> nat \<Rightarrow> product list list \<Rightarrow> sync_stats \<Rightarrow> env \<Rightarrow> sync_stats \<times> env" where
  "chunk_loop d chunk_num [] st s = (st, s)"
| "chunk_loop d chunk_num (chunk # rest) st s =
     (case process_product_chunk d chunk s of
        ((chunk_processed, chunk_processed_skus), s1) \<Rightarrow>
          (let st1 = st\<lparr>processed := processed st + chunk_processed,
                        matched_skus := matched_skus st \<union> chunk_processed_skus\<rparr>
           in if commit_fails s1 chunk_num
              then chunk_loop d (chunk_num + 1) rest (st1\<lparr>failed := failed st1 + length chunk\<rparr>) s1
              else chunk_loop d (chunk_num + 1) rest st1 s1))"

text \<open>The database after the chunks, whatever the commits and counters do.\<close>

definition chunks_state :: "api_data \<Rightarrow> product list list \<Rightarrow> env \<Rightarrow> env" where
  "chunks_state d cs s = fold (\<lambda>chunk s1. snd (process_product_chunk d chunk s1)) cs s"

text \<open>What the commits that fail add to the counter \<open>failed\<close>, chunk \<open>n\<close> first: the
  length of every chunk whose commit raises.\<close>

fun failed_by_commit :: "(nat \<Rightarrow> bool) \<Rightarrow> nat \<Rightarrow> 'a list list \<Rightarrow> nat" where
  "failed_by_commit cf n [] = 0"
| "failed_by_commit cf n (c # cs) =
     (if cf n then length c else 0) + failed_by_commit cf (n + 1) cs"

subsection \<open>Missing-product resolver\<close>

text \<open>\<^verbatim>\<open>_sv_norm_sku\<close>: empty for a falsy value, otherwise the characters
  \<^verbatim>\<open>0-9A-Za-z\<close> upper-cased.\<close>

definition sv_norm_sku :: "pyval \<Rightarrow> string" where
  "sv_norm_sku v = (if \<not> truthy v then [] else upper (filter isalnum (py_str v)))"

fun contains :: "string \<Rightarrow> string \<Rightarrow> bool" where
  "contains pat [] = (pat = [])"
| "contains pat (c # cs) = (take (length pat) (c # cs) = pat \<or> contains pat cs)"

text \<open>The domain leaf \<^verbatim>\<open>('default_code', 'ilike', pat)\<close>: the column holds the pattern,
  letter case ignored; never true of an empty column.\<close>

fun ilike :: "pyval \<Rightarrow> string \<Rightarrow> bool" where
  "ilike (PStr s) pat = contains (lower pat) (lower s)"
| "ilike _ pat = False"

text \<open>\<^verbatim>\<open>_sv_find_product_by_sku_only_relaxed\<close>: the id of the product found, or \<open>None\<close>
  for the empty recordset. Candidates are the first 200 rows whose \<^verbatim>\<open>default_code\<close>
  holds both the first four and the last four characters of the normalised SKU.\<close>

definition sv_find_product_by_sku_only_relaxed :: "env \<Rightarrow> string \<Rightarrow> nat option" where
  "sv_find_product_by_sku_only_relaxed s api_sku =
     (let norm_target = sv_norm_sku (PStr api_sku) in
      if norm_target = [] then None
      else
        (let head = take 4 norm_target;
             tail = drop (length norm_target - 4) norm_target;
             candidates =
               take 200 (filter (\<lambda>p. ilike (default_code p) head \<and> ilike (default_code p) tail)
                                (products s))
         in case find (\<lambda>p. sv_norm_sku (default_code p) = norm_target) candidates of
              Some p \<Rightarrow> Some (p_id p)
            | None \<Rightarrow>
                (let tmpl_candidates =
                       take 200 (filter (\<lambda>t. ilike (t_default_code t) head \<and>
                                              ilike (t_default_code t) tail) (templates s))
                 in case find (\<lambda>t. sv_norm_sku (t_default_code t) = norm_target) tmpl_candidates of
                      Some t \<Rightarrow> (case product_variant_ids t of [] \<Rightarrow> None | v # vs \<Rightarrow> Some v)
                    | None \<Rightarrow>
                        (case find (\<lambda>p. default_code p = PStr api_sku) (products s) of
                           Some p \<Rightarrow> Some (p_id p)
                         | None \<Rightarrow> None))))"

text \<open>The values handed to \<^verbatim>\<open>create\<close>; \<open>v_status\<close> and \<open>v_note\<close> are \<open>None\<close> when the
  key is absent.\<close>

record missing_vals =
  v_sku :: string
  v_brand :: "string option"
  v_main_id :: "string option"
  v_barcode :: "string option"
  v_quantity :: pyfloat
  v_sync_date :: int
  v_status :: "status option"
  v_note :: "missing_note option"

text \<open>The override of \<^verbatim>\<open>create\<close> on \<^verbatim>\<open>warehouse.missing.products\<close>: the guard of
  \<^verbatim>\<open>_prepare_vals\<close>, then the row is stored with the default status \<^verbatim>\<open>missing\<close> where none
  is given, and with the creation date. The table is ordered \<^verbatim>\<open>create_date desc\<close>, so the
  new row comes first.\<close>

definition prepare_vals :: "env \<Rightarrow> missing_vals \<Rightarrow> missing_vals" where
  "prepare_vals s v =
     (case sv_find_product_by_sku_only_relaxed s (v_sku v) of
        Some product_id \<Rightarrow>
          v\<lparr>v_status := Some Ignored, v_note := Some (Guard_ignored (v_note v) product_id)\<rparr>
      | None \<Rightarrow> v)"

definition create :: "missing_vals \<Rightarrow> env \<Rightarrow> env" where
  "create vals s =
     (let v = prepare_vals s vals;
          row = \<lparr> m_sku = v_sku v, m_brand = v_brand v, m_main_id = v_main_id v,
                  m_barcode = v_barcode v, m_quantity = v_quantity v,
                  m_create_date = now s, m_sync_date = v_sync_date v,
                  m_status = (case v_status v of None \<Rightarrow> Missing | Some st \<Rightarrow> st),
                  m_note = v_note v \<rparr>
      in s\<lparr>missing_products := row # missing_products s\<rparr>)"

fun split_on :: "char \<Rightarrow> string \<Rightarrow> string list" where
  "split_on sep [] = [[]]"
| "split_on sep (c # cs) =
     (if c = sep then [] # split_on sep cs
      else (case split_on sep cs of w # ws \<Rightarrow> (c # w) # ws | [] \<Rightarrow> [[c]]))"

definition startswith :: "string \<Rightarrow> string \<Rightarrow> bool" where
  "startswith s pre = (take (length pre) s = pre)"

text \<open>\<^verbatim>\<open>filter_enabled\<close> and \<^verbatim>\<open>allowed_prefixes\<close> as \<^verbatim>\<open>_process_missing_products\<close> reads them
  from the first panel row.\<close>

definition filter_enabled :: "env \<Rightarrow> bool" where
  "filter_enabled s =
     (case panel_config s of None \<Rightarrow> False | Some cfg \<Rightarrow> filter_missing_products cfg)"

definition allowed_prefix_list :: "env \<Rightarrow> string list" where
  "allowed_prefix_list s =
     (case panel_config s of
        None \<Rightarrow> []
      | Some cfg \<Rightarrow>
          if filter_missing_products cfg \<and> truthy (allowed_prefixes cfg)
          then filter (\<lambda>w. w \<noteq> []) (map strip (split_on (CHR '','') (py_str (allowed_prefixes cfg))))
          else [])"

text \<open>"Apply prefix filtering if enabled": the entry is skipped when the filter is on,
  there are prefixes, and its SKU is empty or starts with none of them.\<close>

definition prefix_rejected :: "env \<Rightarrow> api_entry \<Rightarrow> bool" where
  "prefix_rejected s e =
     (filter_enabled s \<and> allowed_prefix_list s \<noteq> [] \<and>
      \<not> (sku e \<noteq> [] \<and> list_ex (startswith (sku e)) (allowed_prefix_list s)))"

text \<open>\<^verbatim>\<open>search([('sku', '=', key), ('status', '=', 'missing')], limit=1)\<close> and the
  \<^verbatim>\<open>write\<close> on the row found.\<close>

definition is_open_record :: "string \<Rightarrow> missing_record \<Rightarrow> bool" where
  "is_open_record key r = (m_sku r = key \<and> m_status r = Missing)"

fun write_first ::
  "(missing_record \<Rightarrow> bool) \<Rightarrow> (missing_record \<Rightarrow> missing_record) \<Rightarrow>
   missing_record list \<Rightarrow> missing_record list" where
  "write_first P f [] = []"
| "write_first P f (r # rs) = (if P r then f r # rs else r # write_first P f rs)"

definition record_key :: "string \<Rightarrow> api_entry \<Rightarrow> string" where
  "record_key n_sku e = (if sku e \<noteq> [] then strip (sku e) else ''UNKNOWN_SKU_'' @ n_sku)"

text \<open>The values of "Create new missing product record".\<close>

definition new_record_vals :: "string \<Rightarrow> api_entry \<Rightarrow> env \<Rightarrow> missing_vals" where
  "new_record_vals n_sku e s =
     \<lparr> v_sku = record_key n_sku e,
       v_brand = (if brand e \<noteq> [] \<and> lower (brand e) \<noteq> ''none'' then Some (brand e) else None),
       v_main_id = (if ext_id e \<noteq> [] then Some (ext_id e) else None),
       v_barcode = (case barcode e of
                      None \<Rightarrow> None
                    | Some b \<Rightarrow> if b \<noteq> [] \<and> lower b \<noteq> ''none'' then Some b else None),
       v_quantity = qty e,
       v_sync_date = now s,
       v_status = None,
       v_note = Some (Found_missing (qty e)) \<rparr>"

text \<open>One round of the loop of \<^verbatim>\<open>_process_missing_products\<close> over
  \<^verbatim>\<open>api_products_by_sku.items()\<close>; the counters are \<^verbatim>\<open>missing_count\<close> and
  \<^verbatim>\<open>skipped_by_filter\<close>.\<close>

definition missing_step ::
  "string set \<Rightarrow> string \<times> api_entry \<Rightarrow> (nat \<times> nat) \<times> env \<Rightarrow> (nat \<times> nat) \<times> env" where
  "missing_step processed_skus item acc =
     (case (item, acc) of
        ((n_sku, e), ((missing_count, skipped_by_filter), s)) \<Rightarrow>
          if n_sku \<in> processed_skus then acc
          else if prefix_rejected s e
          then ((missing_count, skipped_by_filter + 1), s)
          else if list_ex (is_open_record (record_key n_sku e)) (missing_products s)
          then ((missing_count, skipped_by_filter),
                s\<lparr>missing_products :=
                    write_first (is_open_record (record_key n_sku e))
                      (\<lambda>r. r\<lparr>m_sync_date := now s, m_quantity := qty e,
                              m_note := Some (Still_missing (qty e))\<rparr>)
                      (missing_products s)\<rparr>)
          else ((missing_count + 1, skipped_by_filter),
                create (new_record_vals n_sku e s) s))"

definition process_missing_products :: "api_data \<Rightarrow> string set \<Rightarrow> env \<Rightarrow> (nat \<times> nat) \<times> env" where
  "process_missing_products d processed_skus s =
     fold (missing_step processed_skus) (by_sku d) ((0, 0), s)"

text \<open>The database after one round of that loop, the counters left out.\<close>

definition resolve_item :: "string set \<Rightarrow> string \<times> api_entry \<Rightarrow> env \<Rightarrow> env" where
  "resolve_item processed_skus item s = snd (missing_step processed_skus item ((0, 0), s))"

text \<open>The rows with status \<^verbatim>\<open>missing\<close>, and the columns of a row that the resolver never
  rewrites (all but \<^verbatim>\<open>sync_date\<close>, \<^verbatim>\<open>quantity\<close> and \<^verbatim>\<open>note\<close>).\<close>

definition open_records :: "env \<Rightarrow> missing_record list" where
  "open_records s = filter (\<lambda>r. m_status r = Missing) (missing_products s)"

definition fixed_fields ::
  "missing_record \<Rightarrow> string \<times> string option \<times> string option \<times> string option \<times> int \<times> status" where
  "fixed_fields r = (m_sku r, m_brand r, m_main_id r, m_barcode r, m_create_date r, m_status r)"

text \<open>A feed entry for which the loop creates no row with status \<^verbatim>\<open>missing\<close>: it is
  matched, rejected by the prefix filter, on record with status \<^verbatim>\<open>missing\<close> already, or
  caught by the relaxed-match guard.\<close>

definition settled :: "string set \<Rightarrow> env \<Rightarrow> string \<times> api_entry \<Rightarrow> bool" where
  "settled processed_skus s item =
     (fst item \<in> processed_skus \<or> prefix_rejected s (snd item) \<or>
      list_ex (is_open_record (record_key (fst item) (snd item))) (missing_products s) \<or>
      sv_find_product_by_sku_only_relaxed s (record_key (fst item) (snd item)) \<noteq> None)"

subsection \<open>The run\<close>

text \<open>\<^verbatim>\<open>env["product.product"].search([('type', 'in', ['product', 'consu'])])\<close>: the
  active products of these two types.\<close>

definition all_products :: "env \<Rightarrow> product list" where
  "all_products s =
     filter (\<lambda>p. p_active p \<and> p_type p \<in> set [''product'', ''consu'']) (products s)"

text \<open>"Auto-adjust chunk size for very large inventories".\<close>

definition effective_chunk_size :: "nat \<Rightarrow> nat \<Rightarrow> nat" where
  "effective_chunk_size chunk_size total_products =
     (if total_products > 8000 then min chunk_size 80
      else if total_products > 5000 then min chunk_size 100
      else chunk_size)"

text \<open>\<^verbatim>\<open>sync_products_chunked\<close>: \<open>Inr None\<close> is the early \<^verbatim>\<open>return\<close> without API data,
  \<open>Inl\<close> an exception that leaves the method (\<^verbatim>\<open>range\<close> with a zero step), and
  \<open>Inr (Some st)\<close> the counters of a completed pass.\<close>

definition sync_products_chunked ::
  "nat \<Rightarrow> feed_response \<Rightarrow> env \<Rightarrow> (error + sync_stats option) \<times> env" where
  "sync_products_chunked chunk_size feed s =
     (case fetch_api_data feed of
        None \<Rightarrow> (Inr None, s)
      | Some d \<Rightarrow>
          (let total_products = length (all_products s);
               size = effective_chunk_size chunk_size total_products
           in if size = 0 then (Inl Range_step_zero, s)
              else
                (case chunk_loop d 1 (chunks size (all_products s))
                        \<lparr> processed = 0, failed = 0, matched_skus = {} \<rparr> s of
                   (st, s1) \<Rightarrow>
                     (Inr (Some st), snd (process_missing_products d (matched_skus st) s1)))))"

definition day :: int where
  "day = 86400"

text \<open>\<^verbatim>\<open>_clear_previous_logs\<close>: every sync-log row and every unpublished-products row is
  deleted, and every missing-products row whose \<^verbatim>\<open>create_date\<close> is before the cutoff
  \<^verbatim>\<open>now - timedelta(days=1)\<close>.\<close>

definition clear_previous_logs :: "env \<Rightarrow> env" where
  "clear_previous_logs s =
     (let old_missing_cutoff = now s - day in
      s\<lparr>sync_log := [],
        missing_products := filter (\<lambda>r. \<not> m_create_date r < old_missing_cutoff) (missing_products s),
        unpublished_products := []\<rparr>)"

text \<open>\<^verbatim>\<open>str(e)\<close> of the two exceptions.\<close>

definition error_message :: "error \<Rightarrow> string" where
  "error_message e =
     (case e of
        External_id_not_found \<Rightarrow> ''External ID not found in the system: stock.stock_location_stock''
      | Range_step_zero \<Rightarrow> ''range() arg 3 must not be zero'')"

text \<open>\<^verbatim>\<open>run_sync\<close>: clear, sync with the default chunk size, then the summary row. The
  e-mail report that follows writes to none of the stores.\<close>

definition run_sync :: "feed_response \<Rightarrow> env \<Rightarrow> env" where
  "run_sync feed s =
     (case sync_products_chunked 100 feed (clear_previous_logs s) of
        (result, s1) \<Rightarrow>
          (let (status, message) =
                 (case result of
                    Inr r \<Rightarrow> (Success, ''Sync successful'')
                  | Inl e \<Rightarrow> (Fail, error_message e))
           in s1\<lparr>sync_log := sync_log s1 @
                   [\<lparr> l_sku = Sku ''SYSTEM'', l_brand = Some ''SyncVision'', l_main_id = None,
                      l_barcode = None, l_quantity = 0, l_alert = (status = Fail),
                      l_note = Sync_summary status message \<rparr>]\<rparr>))"

text \<open>Processing the product raises an exception.\<close>

definition item_raises :: "api_data \<Rightarrow> product \<Rightarrow> env \<Rightarrow> bool" where
  "item_raises d p s = isl (fst (process_single_product d p s))"

text \<open>The keys one processed product adds to the matched set.\<close>

definition item_keys :: "api_data \<Rightarrow> product \<Rightarrow> string set" where
  "item_keys d p = add_processed (snd (item_match d p)) {}"

text \<open>The texts of a product, of a feed item and of a feed are ASCII: the scope in which
  the character classes above are those of Python.\<close>

definition ascii_product :: "product \<Rightarrow> bool" where
  "ascii_product p =
     (ascii_val (default_code p) \<and> ascii_val (p_barcode p) \<and> ascii_val (tmpl_brand p))"

definition ascii_item :: "feed_item \<Rightarrow> bool" where
  "ascii_item i =
     (ascii_val (item_sku i) \<and> ascii_val (item_barcode i) \<and> ascii_val (item_number i) \<and>
      ascii_val (item_brand i))"

fun ascii_feed :: "feed_response \<Rightarrow> bool" where
  "ascii_feed (Envelope success (Some items)) = list_all ascii_item items"
| "ascii_feed _ = True"

definition ascii_env :: "env \<Rightarrow> bool" where
  "ascii_env s =
     (list_all ascii_product (products s) \<and>
      list_all (\<lambda>t. ascii_val (t_default_code t)) (templates s) \<and>
      (case panel_config s of None \<Rightarrow> True | Some cfg \<Rightarrow> ascii_val (allowed_prefixes cfg)))"

subsection \<open>A worked scenario\<close>

text \<open>The scenario of the specification: the feed item "ABC-123" with barcode "999" and
  stock 40, and the stockable product "ABC123" without a barcode and with quantity 0,
  currently published.\<close>

definition scenario_item :: feed_item where
  "scenario_item = \<lparr> item_sku = PStr ''ABC-123'', item_barcode = PStr ''999'',
                      item_number = PStr ''E1'', item_brand = PStr ''Acme'',
                      southbay_stock = Some (Fin 40) \<rparr>"

definition scenario_feed :: feed_response where
  "scenario_feed = Envelope True (Some [scenario_item])"

definition scenario_data :: api_data where
  "scenario_data = add_feed_item scenario_item \<lparr> by_sku = [], by_barcode = [] \<rparr>"

definition scenario_product :: product where
  "scenario_product = \<lparr> p_id = 7, default_code = PStr ''ABC123'', p_barcode = PFalse,
                        qty_available = 0, detailed_type = PFalse, p_type = ''product'',
                        p_active = True, product_tmpl_id = Some 3, tmpl_brand = PFalse \<rparr>"

definition scenario_env :: env where
  "scenario_env = \<lparr> products = [scenario_product], templates = [],
                    website_published = (\<lambda>t. True), stock_quant = Map.empty, sync_log = [],
                    unpublished_products = [], missing_products = [], panel_config = None,
                    stock_location = Some 8, commit_fails = (\<lambda>n. False), now = 100000 \<rparr>"

text \<open>A batch of 100 products, ids 1 to 100, in a database whose stock location is
  unknown: product 47 is the stockable "ABC123" of the scenario, whose stock would be
  written, the others match nothing in the feed and keep their quantity 0.\<close>

definition batch_product :: "nat \<Rightarrow> product" where
  "batch_product i =
     \<lparr> p_id = i, default_code = (if i = 47 then PStr ''ABC123'' else PStr ''X''),
       p_barcode = PFalse, qty_available = 0, detailed_type = PFalse, p_type = ''product'',
       p_active = True, product_tmpl_id = Some i, tmpl_brand = PFalse \<rparr>"

definition batch_env :: env where
  "batch_env = scenario_env\<lparr>products := map batch_product [1..<101], stock_location := None\<rparr>"

text \<open>A feed of two records, and two products whose barcode "111" is that of the second
  record: one carries the SKU of the first record, the other has no SKU.\<close>

definition second_item :: feed_item where
  "second_item = \<lparr> item_sku = PStr ''ZZ-9'', item_barcode = PStr ''111'',
                    item_number = PStr ''E2'', item_brand = PStr ''Acme'',
                    southbay_stock = Some (Fin 250) \<rparr>"

definition two_feed :: feed_response where
  "two_feed = Envelope True (Some [scenario_item, second_item])"

definition two_data :: api_data where
  "two_data = fold add_feed_item [scenario_item, second_item] \<lparr> by_sku = [], by_barcode = [] \<rparr>"

definition entry_abc :: api_entry where
  "entry_abc = \<lparr> ext_id = ''E1'', qty = Fin 40, sku = ''ABC-123'', barcode = Some ''999'',
                  brand = ''Acme'', normalized_sku = Some ''ABC123'' \<rparr>"

definition entry_zz :: api_entry where
  "entry_zz = \<lparr> ext_id = ''E2'', qty = Fin 250, sku = ''ZZ-9'', barcode = Some ''111'',
                 brand = ''Acme'', normalized_sku = Some ''ZZ9'' \<rparr>"

definition product_both :: product where
  "product_both = scenario_product\<lparr>p_id := 1, p_barcode := PStr ''111''\<rparr>"

definition product_barcode_only :: product where
  "product_barcode_only = scenario_product\<lparr>p_id := 2, default_code := PFalse,
                                           p_barcode := PStr ''111''\<rparr>"

definition two_env :: env where
  "two_env = scenario_env\<lparr>products := [product_both, product_barcode_only]\<rparr>"

text \<open>Records of the missing-products table created at time 0, for a run at time
  100000, more than a day later.\<close>

definition old_record :: "status \<Rightarrow> missing_record" where
  "old_record st = \<lparr> m_sku = ''ZZ-9'', m_brand = None, m_main_id = None, m_barcode = None,
                      m_quantity = Fin 250, m_create_date = 0, m_sync_date = 0,
                      m_status = st, m_note = None \<rparr>"

definition old_env :: env where
  "old_env = scenario_env\<lparr>missing_products := [old_record Ignored, old_record Created]\<rparr>"

text \<open>A feed with the one SKU "AB100", and an inventory whose only product is archived
  and has the SKU "AB-100".\<close>

definition guard_feed :: feed_response where
  "guard_feed = Envelope True (Some [scenario_item\<lparr>item_sku := PStr ''AB100''\<rparr>])"

definition archived_product :: product where
  "archived_product = scenario_product\<lparr>default_code := PStr ''AB-100'', p_active := False\<rparr>"

definition guard_env :: env where
  "guard_env = scenario_env\<lparr>products := [archived_product]\<rparr>"

text \<open>The mirrored case: the feed SKU "AB-100" and the archived product "AB100".\<close>

definition mirror_data :: api_data where
  "mirror_data =
     add_feed_item (scenario_item\<lparr>item_sku := PStr ''AB-100''\<rparr>) \<lparr> by_sku = [], by_barcode = [] \<rparr>"

definition mirror_env :: env where
  "mirror_env = scenario_env\<lparr>products := [archived_product\<lparr>default_code := PStr ''AB100''\<rparr>]\<rparr>"

text \<open>The database of the two products without a stock location: every stock write
  raises.\<close>

definition unlocated_env :: env where
  "unlocated_env = two_env\<lparr>stock_location := None\<rparr>"

section \<open>Properties\<close>

subsection \<open>Strings and the normaliser\<close>

lemmas char_defs = isalnum_def isspace_def upper_char_def lower_char_def
  ascii_lowercase_def ascii_uppercase_def digits_def whitespace_def




lemma alnum_not_space: "isalnum c \<Longrightarrow> \<not> isspace c"
  by (auto simp add: char_defs)




lemma filter_isalnum_dropWhile: "filter isalnum (dropWhile isspace s) = filter isalnum s"
  by (induction s) (auto dest: alnum_not_space)

lemma filter_isalnum_strip: "filter isalnum (strip s) = filter isalnum s"
proof -
  have "filter isalnum (strip s) = rev (filter isalnum (dropWhile isspace (rev (dropWhile isspace s))))"
    by (simp add: strip_def rev_filter)
  also have "\<dots> = rev (filter isalnum (rev (dropWhile isspace s)))"
    by (simp only: filter_isalnum_dropWhile)
  also have "\<dots> = filter isalnum s"
    by (simp add: rev_filter[symmetric] filter_isalnum_dropWhile)
  finally show ?thesis .
qed




lemma dropWhile_rev_head:
  assumes "t = [] \<or> \<not> P (hd t)"
  shows "dropWhile P (rev (dropWhile P (rev t))) = rev (dropWhile P (rev t))"
proof (cases "dropWhile P (rev t) = []")
  case True
  show ?thesis unfolding True by simp
next
  case False
  let ?r = "dropWhile P (rev t)"
  have t: "t = rev ?r @ rev (takeWhile P (rev t))"
    by (metis rev_append rev_rev_ident takeWhile_dropWhile_id)
  have ne: "rev ?r \<noteq> []" using False by simp
  have hd_eq: "hd (rev ?r) = hd t"
    using ne t by (metis hd_append2)
  have "t \<noteq> []" using False by auto
  then have "\<not> P (hd (rev ?r))" using assms hd_eq by simp
  then show ?thesis using ne by (cases "rev ?r") auto
qed

lemma strip_idem: "strip (strip s) = strip s"
proof -
  let ?d = "dropWhile isspace s"
  have h: "?d = [] \<or> \<not> isspace (hd ?d)"
    by (cases "?d = []") (simp_all add: hd_dropWhile)
  have a: "dropWhile isspace (rev (dropWhile isspace (rev ?d))) = rev (dropWhile isspace (rev ?d))"
    using h by (rule dropWhile_rev_head)
  have b: "dropWhile isspace (dropWhile isspace (rev ?d)) = dropWhile isspace (rev ?d)"
    by (simp add: dropWhile_idem)
  show ?thesis unfolding strip_def by (simp only: a rev_rev_ident b)
qed

lemma strip_empty_filter: "strip s = [] \<Longrightarrow> filter isalnum s = []"
  using filter_isalnum_strip[of s] by simp

lemma normalize_PStr:
  "normalize_identifier (PStr a) =
     (if is_none_text a \<or> alnum_key a = [] then None else Some (alnum_key a))"
proof -
  have e: "a = [] \<Longrightarrow> filter isalnum a = []" by simp
  show ?thesis
    using strip_empty_filter[of a]
    by (auto simp: normalize_identifier_def is_none_text_def alnum_key_def Let_def
        filter_isalnum_strip upper_def)
qed











lemma sanitize_is_spec: "raw \<noteq> PFalse \<Longrightarrow> sanitize_identifier raw = sanitize_spec raw"
  by (cases raw) (simp_all add: sanitize_identifier_def sanitize_spec_def placeholders_def Let_def)

lemma sanitize_spec_not_none: "\<not> is_none_text (sanitize_spec raw)"
  by (simp add: sanitize_spec_def is_none_text_def strip_idem)
     (simp add: strip_def lower_def)

lemma normalize_after_sanitize:
  "raw \<noteq> PFalse \<Longrightarrow>
   normalize_identifier (PStr (sanitize_identifier raw)) = normalize_spec raw"
  by (simp add: normalize_PStr sanitize_is_spec sanitize_spec_not_none normalize_spec_def
      alnum_key_def upper_def)

text \<open>\<^verbatim>\<open>_normalize_identifier\<close> does not sanitize by itself: of the four placeholders it
  rejects only "none". Its callers all hand it the output of \<^verbatim>\<open>_sanitize_identifier\<close>.\<close>

lemma normalize_alone_keeps_placeholders:
  "normalize_identifier (PStr ''null'') = Some ''NULL''
   \<and> normalize_identifier (PStr ''n/a'') = Some ''NA''
   \<and> normalize_identifier (PStr ''na'') = Some ''NA''"
  by (simp add: normalize_PStr is_none_text_def alnum_key_def strip_def lower_def upper_def char_defs)

text \<open>
  Claim C8, evaluated on the code. Sanitize followed by the normaliser, which is what
  every caller computes, is the normaliser of the specification on every ASCII input but
  one: null for \<^verbatim>\<open>None\<close>, blank and placeholder input, otherwise the alphanumeric characters
  upper-cased, null when none is left. The exception is the null of the ORM, the
  \<^verbatim>\<open>False\<close> of an empty field: \<^verbatim>\<open>_sanitize_identifier\<close> tests \<^verbatim>\<open>value is None\<close> only and
  returns the text "False", so the key is "FALSE" where the claim requires null; the
  normaliser itself and the test \<^verbatim>\<open>has_sku\<close> both treat \<^verbatim>\<open>False\<close> as empty.
\<close>

theorem normalize_after_sanitize_except_false:
  "(ascii_val raw \<and> raw \<noteq> PFalse \<longrightarrow>
      normalize_identifier (PStr (sanitize_identifier raw)) = normalize_spec raw)
   \<and> normalize_spec PFalse = None
   \<and> sanitize_identifier PFalse = ''False''
   \<and> normalize_identifier (PStr (sanitize_identifier PFalse)) = Some ''FALSE''
   \<and> normalize_identifier PFalse = None
   \<and> \<not> has_identifier PFalse"
proof (intro conjI impI)
  assume "ascii_val raw \<and> raw \<noteq> PFalse"
  then show "normalize_identifier (PStr (sanitize_identifier raw)) = normalize_spec raw"
    by (simp add: normalize_after_sanitize)
next
  show "normalize_spec PFalse = None"
    by (simp add: normalize_spec_def sanitize_spec_def)
  show f: "sanitize_identifier PFalse = ''False''"
    by (simp add: sanitize_identifier_def placeholders_def strip_def lower_def char_defs)
  show "normalize_identifier (PStr (sanitize_identifier PFalse)) = Some ''FALSE''"
    unfolding f
    by (simp add: normalize_PStr is_none_text_def alnum_key_def strip_def lower_def upper_def
        char_defs)
  show "normalize_identifier PFalse = None"
    by (simp add: normalize_identifier_def)
  show "\<not> has_identifier PFalse"
    by (simp add: has_identifier_def)
qed

text \<open>
  The statement at a placeholder, at an ordinary identifier, both padded with spaces, and
  at \<^verbatim>\<open>None\<close>.
\<close>

theorem normalize_after_sanitize_except_false_witness:
  "ascii_val (PStr '' n/a '') \<and> PStr '' n/a '' \<noteq> PFalse
   \<and> normalize_identifier (PStr (sanitize_identifier (PStr '' n/a ''))) = None
   \<and> ascii_val (PStr '' ab-12 '') \<and> PStr '' ab-12 '' \<noteq> PFalse
   \<and> normalize_identifier (PStr (sanitize_identifier (PStr '' ab-12 ''))) = Some ''AB12''
   \<and> ascii_val PNone \<and> PNone \<noteq> PFalse
   \<and> normalize_identifier (PStr (sanitize_identifier PNone)) = None"
  using normalize_after_sanitize_except_false[of "PStr '' n/a ''"]
    normalize_after_sanitize_except_false[of "PStr '' ab-12 ''"]
    normalize_after_sanitize_except_false[of PNone]
  by (simp add: ascii_val_def ascii_def normalize_spec_def sanitize_spec_def strip_def lower_def
      upper_def char_defs)


text \<open>
  Claim C2. For a finite quantity \<open>q \<ge> 0\<close> each condition of the table gives its tier,
  whatever the product's current quantity; exactly one of the five conditions holds; and
  the boundary table holds.
\<close>

theorem stock_rule_tiers:
  "0 \<le> q \<longrightarrow>
     (q = 0 \<longrightarrow> stock_rule (Fin q) a = 0)
   \<and> (30 \<le> q \<and> q \<le> 50 \<longrightarrow> stock_rule (Fin q) a = 2)
   \<and> (0 < q \<and> q < 30 \<longrightarrow> stock_rule (Fin q) a = 0)
   \<and> (50 < q \<and> q < 200 \<longrightarrow> stock_rule (Fin q) a = 5)
   \<and> (200 \<le> q \<longrightarrow> stock_rule (Fin q) a = 10)
   \<and> length (filter id (tier_conditions q)) = 1
   \<and> stock_rule (Fin 0) a = 0 \<and> stock_rule (Fin 29) a = 0
   \<and> stock_rule (Fin 30) a = 2 \<and> stock_rule (Fin 50) a = 2
   \<and> stock_rule (Fin 51) a = 5 \<and> stock_rule (Fin 199) a = 5
   \<and> stock_rule (Fin 200) a = 10 \<and> stock_rule (Fin 1000) a = 10"
  by (auto simp: stock_rule_def tier_conditions_def)

text \<open>
  The statement at 40 and at 29.5.
\<close>

theorem stock_rule_tiers_witness:
  "(0::real) \<le> 40 \<and> stock_rule (Fin 40) 7 = 2 \<and> length (filter id (tier_conditions 40)) = 1
   \<and> (0::real) \<le> 29.5 \<and> stock_rule (Fin 29.5) 7 = 0"
  using stock_rule_tiers[of 40 7] stock_rule_tiers[of "29.5" 7]
  by (simp add: tier_conditions_def)

subsection \<open>Per-item processing\<close>

lemma process_single_unfold:
  "process_single_product d p s =
     (let s1 = s\<lparr>sync_log := sync_log s @ [item_log_row d p]\<rparr> in
      if stock_changes d p
      then (case stock_location s of
              None \<Rightarrow> (Inl External_id_not_found, s1)
            | Some l \<Rightarrow>
                (Inr (snd (item_match d p)),
                 item_publishing d p (s1\<lparr>stock_quant := (stock_quant s1)(p_id p \<mapsto> item_new_qty d p)\<rparr>)))
      else (Inr (snd (item_match d p)), item_publishing d p s1))"
proof -
  obtain api psku where m:
    "lookup_api d (normalize_identifier (PStr (sanitize_identifier (default_code p))))
                  (normalize_identifier (PStr (sanitize_identifier (p_barcode p)))) = (api, psku)"
    by (cases "lookup_api d (normalize_identifier (PStr (sanitize_identifier (default_code p))))
                  (normalize_identifier (PStr (sanitize_identifier (p_barcode p))))") simp
  show ?thesis
    unfolding process_single_product_def item_log_row_def stock_changes_def item_publishing_def
      item_new_qty_def item_qty_def item_match_def update_product_stock_def Let_def m
    by (cases "stock_location s"; cases "has_identifier (default_code p)";
        cases "has_identifier (p_barcode p)") simp_all
qed


lemma publishing_fields:
  "stock_location (handle_product_publishing p a b api q s) = stock_location s"
  "commit_fails (handle_product_publishing p a b api q s) = commit_fails s"
  "products (handle_product_publishing p a b api q s) = products s"
  "templates (handle_product_publishing p a b api q s) = templates s"
  "missing_products (handle_product_publishing p a b api q s) = missing_products s"
  "panel_config (handle_product_publishing p a b api q s) = panel_config s"
  "now (handle_product_publishing p a b api q s) = now s"
  "stock_quant (handle_product_publishing p a b api q s) = stock_quant s"
  "sync_log (handle_product_publishing p a b api q s) = sync_log s"
  by (simp_all add: handle_product_publishing_def Let_def split: option.split)

lemma process_single_fields:
  "stock_location (snd (process_single_product d p s)) = stock_location s"
  "commit_fails (snd (process_single_product d p s)) = commit_fails s"
  "products (snd (process_single_product d p s)) = products s"
  "templates (snd (process_single_product d p s)) = templates s"
  "missing_products (snd (process_single_product d p s)) = missing_products s"
  "panel_config (snd (process_single_product d p s)) = panel_config s"
  "now (snd (process_single_product d p s)) = now s"
  by (simp_all add: process_single_unfold item_publishing_def publishing_fields Let_def split: option.split)

lemma process_single_fst:
  "fst (process_single_product d p s) =
     (if stock_changes d p \<and> stock_location s = None then Inl External_id_not_found
      else Inr (snd (item_match d p)))"
  by (simp add: process_single_unfold Let_def split: option.split)

text \<open>The test on the raw field is the specification's "sanitize gives a non-empty text",
  except on \<^verbatim>\<open>False\<close>, the ORM's empty field, which it rejects while
  \<^verbatim>\<open>_sanitize_identifier\<close> returns the text "False".\<close>

lemma has_identifier_sanitize:
  "v \<noteq> PFalse \<Longrightarrow> has_identifier v = (sanitize_identifier v \<noteq> [])"
proof (cases v)
  case (PStr x)
  have "strip x \<noteq> [] \<Longrightarrow> x \<noteq> []"
    by (auto simp add: strip_def)
  moreover have "lower (strip x) = [] \<longleftrightarrow> strip x = []"
    by (simp add: lower_def)
  ultimately show ?thesis
    using PStr by (auto simp add: has_identifier_def sanitize_identifier_def placeholders_def Let_def)
qed (simp_all add: has_identifier_def sanitize_identifier_def)

lemma has_identifier_spec: "has_identifier v = (sanitize_spec v \<noteq> [])"
proof (cases "v = PFalse")
  case True
  then show ?thesis by (simp add: has_identifier_def sanitize_spec_def)
next
  case False
  then show ?thesis by (simp add: has_identifier_sanitize sanitize_is_spec)
qed

lemma has_identifier_False: "\<not> has_identifier PFalse \<and> sanitize_identifier PFalse = ''False''"
  by (simp add: has_identifier_def sanitize_identifier_def placeholders_def strip_def lower_def
      char_defs)

subsection \<open>Chunks\<close>

lemma item_raises_eq: "item_raises d p s = (stock_changes d p \<and> stock_location s = None)"
  by (simp add: item_raises_def process_single_fst)

lemma process_single_result:
  "process_single_product d p s =
     (if item_raises d p s then Inl External_id_not_found else Inr (snd (item_match d p)),
      snd (process_single_product d p s))"
  using process_single_fst[of d p s] by (metis item_raises_eq prod.collapse)

lemma process_product_loop_Cons:
  "process_product_loop d (p # ps) (c, S) s =
     (if item_raises d p s
      then process_product_loop d ps (c, S) (snd (process_single_product d p s))
      else process_product_loop d ps (c + 1, add_processed (snd (item_match d p)) S)
             (snd (process_single_product d p s)))"
proof -
  obtain r s1 where e: "process_single_product d p s = (r, s1)"
    by (cases "process_single_product d p s")
  have r: "r = (if stock_changes d p \<and> stock_location s = None then Inl External_id_not_found
                else Inr (snd (item_match d p)))"
    using process_single_fst[of d p s] e by simp
  show ?thesis by (simp add: e r item_raises_def)
qed

lemma item_raises_cong:
  "stock_location s = stock_location s' \<Longrightarrow> item_raises d p s = item_raises d p s'"
  by (simp add: item_raises_eq)

lemma process_product_loop_fields:
  "stock_location (snd (process_product_loop d ps acc s)) = stock_location s \<and>
   commit_fails (snd (process_product_loop d ps acc s)) = commit_fails s \<and>
   products (snd (process_product_loop d ps acc s)) = products s \<and>
   templates (snd (process_product_loop d ps acc s)) = templates s \<and>
   missing_products (snd (process_product_loop d ps acc s)) = missing_products s \<and>
   panel_config (snd (process_product_loop d ps acc s)) = panel_config s \<and>
   now (snd (process_product_loop d ps acc s)) = now s"
proof (induction ps arbitrary: acc s)
  case Nil
  then show ?case by simp
next
  case (Cons p ps)
  obtain c S where acc: "acc = (c, S)" by (cases acc)
  show ?case
    unfolding acc process_product_loop_Cons
    by (cases "item_raises d p s") (simp_all only: if_True if_False Cons.IH process_single_fields simp_thms)
qed

lemma process_product_loop_result:
  "fst (process_product_loop d ps (c, S) s) =
     (c + length (filter (\<lambda>p. \<not> item_raises d p s) ps),
      S \<union> (\<Union>p \<in> set (filter (\<lambda>p. \<not> item_raises d p s) ps). item_keys d p))"
proof (induction ps arbitrary: c S s)
  case Nil
  then show ?case by simp
next
  case (Cons p ps)
  let ?s1 = "snd (process_single_product d p s)"
  have loc: "stock_location ?s1 = stock_location s" by (simp add: process_single_fields)
  have cong: "item_raises d q ?s1 = item_raises d q s" for q
    using item_raises_cong[OF loc] by simp
  have add: "add_processed k S = S \<union> add_processed k {}" for k
    by (cases k) auto
  show ?case
  proof (cases "item_raises d p s")
    case True
    then show ?thesis
      unfolding process_product_loop_Cons using Cons.IH[of c S ?s1] by (simp add: cong)
  next
    case False
    then show ?thesis
      unfolding process_product_loop_Cons
      using Cons.IH[of "c + 1" "add_processed (snd (item_match d p)) S" ?s1]
        add[of "snd (item_match d p)"]
      by (auto simp add: cong item_keys_def)
  qed
qed

lemma publishing_flag:
  "website_published (handle_product_publishing p a b api q s) t =
     (if product_tmpl_id p = Some t then a \<and> b else website_published s t)"
  by (cases "product_tmpl_id p") (auto simp add: handle_product_publishing_def Let_def)

lemma publishing_rows:
  "unpublished_products (handle_product_publishing p a b api q s) =
     unpublished_products s @
     (if product_tmpl_id p \<noteq> None \<and> \<not> (a \<and> b) then [unpublished_row p a b api q (now s)] else [])"
  by (cases "product_tmpl_id p") (auto simp add: handle_product_publishing_def Let_def)

lemma process_single_published:
  "website_published (snd (process_single_product d p s)) t =
     (if product_tmpl_id p = Some t \<and> \<not> item_raises d p s then item_publish p
      else website_published s t)"
  by (cases "stock_changes d p"; cases "stock_location s")
     (simp_all add: process_single_unfold Let_def item_raises_eq item_publishing_def
        publishing_flag item_publish_def)

lemma process_single_unpublished:
  "unpublished_products (snd (process_single_product d p s)) =
     unpublished_products s @
     (if \<not> item_raises d p s \<and> product_tmpl_id p \<noteq> None \<and> \<not> item_publish p
      then [item_unpublished_row d p (now s)] else [])"
  by (cases "stock_changes d p"; cases "stock_location s")
     (simp_all add: process_single_unfold Let_def item_raises_eq item_publishing_def
        publishing_rows item_publish_def item_unpublished_row_def)

lemma loop_published:
  "website_published (snd (process_product_loop d ps acc s)) t =
     (if filter (\<lambda>p. product_tmpl_id p = Some t \<and> \<not> item_raises d p s) ps = []
      then website_published s t
      else item_publish (last (filter (\<lambda>p. product_tmpl_id p = Some t \<and> \<not> item_raises d p s) ps)))"
proof (induction ps arbitrary: acc s)
  case Nil
  then show ?case by simp
next
  case (Cons p ps)
  obtain c S where acc: "acc = (c, S)" by (cases acc)
  let ?s1 = "snd (process_single_product d p s)"
  have loc: "stock_location ?s1 = stock_location s" by (simp add: process_single_fields)
  have cong: "item_raises d q ?s1 = item_raises d q s" for q
    using item_raises_cong[OF loc] by simp
  show ?case
    unfolding acc process_product_loop_Cons
    by (simp add: Cons.IH cong process_single_published)
qed

lemma loop_unpublished:
  "unpublished_products (snd (process_product_loop d ps acc s)) =
     unpublished_products s @
     map (\<lambda>p. item_unpublished_row d p (now s))
       (filter (\<lambda>p. \<not> item_raises d p s \<and> product_tmpl_id p \<noteq> None \<and> \<not> item_publish p) ps)"
proof (induction ps arbitrary: acc s)
  case Nil
  then show ?case by simp
next
  case (Cons p ps)
  obtain c S where acc: "acc = (c, S)" by (cases acc)
  let ?s1 = "snd (process_single_product d p s)"
  have loc: "stock_location ?s1 = stock_location s" "now ?s1 = now s"
    by (simp_all add: process_single_fields)
  have cong: "item_raises d q ?s1 = item_raises d q s" for q
    using item_raises_cong[OF loc(1)] by simp
  show ?case
    unfolding acc process_product_loop_Cons
    by (simp add: Cons.IH cong loc process_single_unpublished)
qed

lemma process_product_chunk_result:
  "fst (process_product_chunk d chunk s) =
     (length (filter (\<lambda>p. \<not> item_raises d p s) chunk),
      (\<Union>p \<in> set (filter (\<lambda>p. \<not> item_raises d p s) chunk). item_keys d p))"
  by (simp add: process_product_chunk_def process_product_loop_result)


lemma concat_chunks: "0 < n \<Longrightarrow> concat (chunks n xs) = xs"
proof (induction n xs rule: chunks.induct)
  case (1 n xs)
  show ?case
  proof (cases "xs = []")
    case True
    then show ?thesis by (subst chunks.simps) simp
  next
    case False
    then have "chunks n xs = take n xs # chunks n (drop n xs)"
      using "1.prems" by (subst chunks.simps) simp
    moreover have "concat (chunks n (drop n xs)) = drop n xs"
      using "1.IH" "1.prems" False by simp
    ultimately show ?thesis by simp
  qed
qed

lemma chunks_single: "xs \<noteq> [] \<Longrightarrow> length xs \<le> n \<Longrightarrow> chunks n xs = [xs]"
  by (subst chunks.simps) (cases xs, auto simp: chunks.simps[of n "[]"])

lemma chunk_loop_result:
  "fst (chunk_loop d n cs st s) =
     st\<lparr>processed := processed st + length (filter (\<lambda>p. \<not> item_raises d p s) (concat cs)),
        matched_skus := matched_skus st \<union>
           (\<Union>p \<in> set (filter (\<lambda>p. \<not> item_raises d p s) (concat cs)). item_keys d p),
        failed := failed st + failed_by_commit (commit_fails s) n cs\<rparr>"
proof (induction cs arbitrary: n st s)
  case Nil
  then show ?case by simp
next
  case (Cons c cs)
  let ?r = "process_product_chunk d c s"
  let ?s1 = "snd ?r"
  have s1: "stock_location ?s1 = stock_location s" "commit_fails ?s1 = commit_fails s"
    by (simp_all add: process_product_chunk_def process_product_loop_fields)
  have cong: "item_raises d q ?s1 = item_raises d q s" for q
    using item_raises_cong[OF s1(1)] by simp
  have r: "?r = ((length (filter (\<lambda>p. \<not> item_raises d p s) c),
                  (\<Union>p \<in> set (filter (\<lambda>p. \<not> item_raises d p s) c). item_keys d p)), ?s1)"
    using process_product_chunk_result[of d c s] by (metis prod.collapse)
  show ?case
    apply (subst chunk_loop.simps)
    apply (subst r)
    apply (simp only: prod.case Let_def s1)
    apply (cases "commit_fails s n")
     apply (simp_all add: Cons.IH cong s1 Un_assoc)
    done
qed


subsection \<open>The driver\<close>

lemma effective_chunk_size_pos: "0 < n \<Longrightarrow> 0 < effective_chunk_size n t"
  by (simp add: effective_chunk_size_def)

lemma sync_products_chunked_result:
  assumes "fetch_api_data feed = Some d" and "0 < chunk_size"
  shows "fst (sync_products_chunked chunk_size feed s) =
     Inr (Some \<lparr> processed = length (filter (\<lambda>p. \<not> item_raises d p s) (all_products s)),
                 failed = failed_by_commit (commit_fails s) 1
                            (chunks (effective_chunk_size chunk_size (length (all_products s)))
                               (all_products s)),
                 matched_skus =
                   (\<Union>p \<in> set (filter (\<lambda>p. \<not> item_raises d p s) (all_products s)). item_keys d p) \<rparr>)"
proof -
  let ?n = "effective_chunk_size chunk_size (length (all_products s))"
  have n: "0 < ?n" using assms(2) by (rule effective_chunk_size_pos)
  obtain st s1 where r: "chunk_loop d 1 (chunks ?n (all_products s))
                          \<lparr> processed = 0, failed = 0, matched_skus = {} \<rparr> s = (st, s1)"
    by (cases "chunk_loop d 1 (chunks ?n (all_products s))
                          \<lparr> processed = 0, failed = 0, matched_skus = {} \<rparr> s")
  have st: "st = fst (chunk_loop d 1 (chunks ?n (all_products s))
                          \<lparr> processed = 0, failed = 0, matched_skus = {} \<rparr> s)"
    using r by simp
  have "fst (sync_products_chunked chunk_size feed s) = Inr (Some st)"
    using n by (simp add: sync_products_chunked_def assms(1) Let_def r del: One_nat_def)
  then show ?thesis
    by (simp add: st chunk_loop_result concat_chunks[OF n])
qed

lemma failed_by_commit_none: "failed_by_commit (\<lambda>n. False) n cs = 0"
  by (induction cs arbitrary: n) simp_all

text \<open>
  Claim C4, as the code has it. An exception raised while one product is processed is
  caught inside the chunk: a chunk returns the count of its products that raised nothing,
  the run counts exactly those products as processed, and \<open>failed\<close> only adds the
  lengths of the chunks whose commit raised, so it stays 0 when no commit fails.
\<close>

theorem item_failure_isolated_per_item:
  "fst (fst (process_product_chunk d chunk s)) = length (filter (\<lambda>p. \<not> item_raises d p s) chunk)
   \<and> (fetch_api_data feed = Some d \<and> 0 < chunk_size \<longrightarrow>
        fst (sync_products_chunked chunk_size feed s) =
          Inr (Some \<lparr> processed = length (filter (\<lambda>p. \<not> item_raises d p s) (all_products s)),
                 failed = failed_by_commit (commit_fails s) 1
                            (chunks (effective_chunk_size chunk_size (length (all_products s)))
                               (all_products s)),
                 matched_skus =
                   (\<Union>p \<in> set (filter (\<lambda>p. \<not> item_raises d p s) (all_products s)). item_keys d p) \<rparr>))
   \<and> failed_by_commit (\<lambda>n. False) n cs = 0"
  using sync_products_chunked_result[of feed d chunk_size s]
  by (simp add: process_product_chunk_result failed_by_commit_none)

lemma scenario_fetch: "fetch_api_data scenario_feed = Some scenario_data"
  by (simp add: scenario_feed_def scenario_data_def)

lemma batch_all_products: "all_products batch_env = map batch_product [1..<101]"
  by (simp add: all_products_def batch_env_def scenario_env_def filter_map o_def batch_product_def)

lemma batch_match_47: "item_match scenario_data (batch_product 47) = item_match scenario_data scenario_product"
  by (simp add: item_match_def batch_product_def scenario_product_def)

lemma batch_match_other:
  "i \<noteq> 47 \<Longrightarrow> item_match scenario_data (batch_product i) = (None, None)"
proof -
  have e: "lookup_api scenario_data (normalize_identifier (PStr (sanitize_identifier (PStr ''X''))))
             (normalize_identifier (PStr (sanitize_identifier PFalse))) = (None, None)"
    by code_simp
  assume "i \<noteq> 47"
  then show ?thesis by (simp add: item_match_def batch_product_def e)
qed

lemma batch_raises: "item_raises scenario_data (batch_product i) batch_env = (i = 47)"
proof (cases "i = 47")
  case True
  have "stock_changes scenario_data (batch_product 47)"
    by code_simp
  then show ?thesis using True by (simp add: item_raises_eq batch_env_def)
next
  case False
  have q: "item_new_qty scenario_data (batch_product i) = 0"
    by (simp add: item_new_qty_def item_qty_def batch_match_other[OF False] stock_rule_def)
  have a: "qty_available (batch_product i) = 0"
    by (simp add: batch_product_def)
  have "\<not> stock_changes scenario_data (batch_product i)"
    by (simp add: stock_changes_def q a)
  then show ?thesis using False by (simp add: item_raises_eq)
qed

lemma batch_keys: "i \<noteq> 47 \<Longrightarrow> item_keys scenario_data (batch_product i) = {}"
  by (simp add: item_keys_def batch_match_other)

lemma len99: "length (filter (\<lambda>i. i \<noteq> 47) [Suc 0..<101]) = (99::nat)"
  by code_simp

text \<open>
  Claim C4 as stated fails: in a batch of 100 products where product 47 raises, 99 are
  counted processed and none failed.
\<close>

theorem batch_not_failed_counterexample:
  "length (all_products batch_env) = 100
   \<and> item_raises scenario_data (batch_product 47) batch_env
   \<and> fst (sync_products_chunked 100 scenario_feed batch_env) =
       Inr (Some \<lparr> processed = 99, failed = 0, matched_skus = {} \<rparr>)"
proof -
  have cf: "commit_fails batch_env = (\<lambda>n. False)"
    by (simp add: batch_env_def scenario_env_def)
  have p: "length (filter (\<lambda>p. \<not> item_raises scenario_data p batch_env) (all_products batch_env)) = 99"
    by (simp add: batch_all_products filter_map o_def batch_raises len99)
  have k: "(\<Union>p \<in> set (filter (\<lambda>p. \<not> item_raises scenario_data p batch_env) (all_products batch_env)).
              item_keys scenario_data p) = {}"
    by (auto simp add: batch_all_products batch_raises batch_keys)
  have res: "fst (sync_products_chunked 100 scenario_feed batch_env) =
     Inr (Some \<lparr> processed = length (filter (\<lambda>p. \<not> item_raises scenario_data p batch_env)
                                     (all_products batch_env)),
                 failed = failed_by_commit (commit_fails batch_env) 1
                            (chunks (effective_chunk_size 100 (length (all_products batch_env)))
                               (all_products batch_env)),
                 matched_skus =
                   (\<Union>p \<in> set (filter (\<lambda>p. \<not> item_raises scenario_data p batch_env)
                                     (all_products batch_env)). item_keys scenario_data p) \<rparr>)"
    by (rule sync_products_chunked_result[OF scenario_fetch]) simp
  have l: "length (all_products batch_env) = 100"
    by (simp add: batch_all_products)
  have r47: "item_raises scenario_data (batch_product 47) batch_env"
    by (simp add: batch_raises)
  show ?thesis
    unfolding res p k cf failed_by_commit_none using l r47 by simp
qed


text \<open>
  The statement in the scenario: one product, processed, nothing failed.
\<close>

theorem item_failure_isolated_per_item_witness:
  "fetch_api_data scenario_feed = Some scenario_data \<and> (0::nat) < 100
   \<and> fst (fst (process_product_chunk scenario_data [scenario_product] scenario_env)) = 1
   \<and> fst (sync_products_chunked 100 scenario_feed scenario_env) =
       Inr (Some \<lparr> processed = 1, failed = 0, matched_skus = {''ABC123''} \<rparr>)"
proof -
  have a: "length (filter (\<lambda>p. \<not> item_raises scenario_data p scenario_env) (all_products scenario_env)) = 1"
    by code_simp
  have a': "length (filter (\<lambda>p. \<not> item_raises scenario_data p scenario_env) [scenario_product]) = 1"
    by code_simp
  have b: "failed_by_commit (commit_fails scenario_env) 1
             (chunks (effective_chunk_size 100 (length (all_products scenario_env)))
                (all_products scenario_env)) = 0"
    by code_simp
  have c: "(\<Union>p \<in> set (filter (\<lambda>p. \<not> item_raises scenario_data p scenario_env)
                                     (all_products scenario_env)). item_keys scenario_data p) = {''ABC123''}"
    by code_simp
  show ?thesis
    using item_failure_isolated_per_item[of scenario_data "[scenario_product]" scenario_env scenario_feed 100 1 "[]"]
      scenario_fetch
    unfolding a a' b c by simp
qed

lemma lookup_api_sku:
  "lookup_key (by_sku d) n_sku = Some e1 \<Longrightarrow> lookup_api d n_sku n_barcode = (Some e1, n_sku)"
  by (simp add: lookup_api_def)

lemma lookup_api_barcode:
  "lookup_key (by_sku d) n_sku = None \<Longrightarrow> lookup_key (by_barcode d) n_barcode = Some e2 \<Longrightarrow>
   lookup_api d n_sku n_barcode =
     (Some e2, if key_truthy (normalized_sku e2) then normalized_sku e2 else None)"
  by (simp add: lookup_api_def)

subsection \<open>The run\<close>

lemma run_sync_no_data:
  "fetch_api_data feed = None \<Longrightarrow>
   run_sync feed s =
     (clear_previous_logs s)\<lparr>sync_log :=
        [\<lparr> l_sku = Sku ''SYSTEM'', l_brand = Some ''SyncVision'', l_main_id = None,
           l_barcode = None, l_quantity = 0, l_alert = False,
           l_note = Sync_summary Success ''Sync successful'' \<rparr>]\<rparr>"
  by (simp add: run_sync_def sync_products_chunked_def clear_previous_logs_def Let_def)

text \<open>
  Claim C1, evaluated on the code. When the fetch fails (no API data), the run writes no
  stock, no published flag and no unpublished-products row, and its log holds the single
  summary row; that row, however, says "Sync success: Sync successful" and raises no
  alert, where the claim requires status fail: \<^verbatim>\<open>sync_products_chunked\<close> returns without
  raising, so \<^verbatim>\<open>run_sync\<close> never reaches its \<^verbatim>\<open>except\<close> branch.
\<close>

theorem feed_failure_recorded_as_success:
  "fetch_api_data feed = None \<longrightarrow>
     sync_log (run_sync feed s) =
        [\<lparr> l_sku = Sku ''SYSTEM'', l_brand = Some ''SyncVision'', l_main_id = None,
           l_barcode = None, l_quantity = 0, l_alert = False,
           l_note = Sync_summary Success ''Sync successful'' \<rparr>]
   \<and> stock_quant (run_sync feed s) = stock_quant s
   \<and> website_published (run_sync feed s) = website_published s
   \<and> unpublished_products (run_sync feed s) = []"
  by (simp add: run_sync_no_data clear_previous_logs_def Let_def)

text \<open>
  The statement for a timeout and for an envelope whose success flag is false.
\<close>

theorem feed_failure_recorded_as_success_witness:
  "fetch_api_data Timeout = None
   \<and> map l_note (sync_log (run_sync Timeout scenario_env)) = [Sync_summary Success ''Sync successful'']
   \<and> map l_alert (sync_log (run_sync Timeout scenario_env)) = [False]
   \<and> fetch_api_data (Envelope False (Some [scenario_item])) = None
   \<and> map l_note (sync_log (run_sync (Envelope False (Some [scenario_item])) scenario_env)) =
        [Sync_summary Success ''Sync successful'']"
  using feed_failure_recorded_as_success[of Timeout scenario_env]
    feed_failure_recorded_as_success[of "Envelope False (Some [scenario_item])" scenario_env]
  by simp


subsection \<open>The purge and the guard\<close>

text \<open>
  Claim C10, as the code has it. The purge at run start keeps exactly the
  missing-products rows created no more than one day before the run and deletes all
  older ones; the status of a row plays no part.
\<close>

theorem purge_by_age_only:
  "missing_products (clear_previous_logs s) =
     filter (\<lambda>r. now s - day \<le> m_create_date r) (missing_products s)"
  by (simp add: clear_previous_logs_def Let_def not_less)

text \<open>
  Claim C10 as stated fails: rows with status ignored and created that are older than
  a day are deleted by the purge.
\<close>

theorem purge_deletes_ignored_counterexample:
  "m_status (old_record Ignored) = Ignored \<and> m_status (old_record Created) = Created
   \<and> missing_products old_env = [old_record Ignored, old_record Created]
   \<and> missing_products (clear_previous_logs old_env) = []"
  by (simp add: clear_previous_logs_def Let_def old_env_def old_record_def scenario_env_def day_def)

text \<open>
  Claim C5, evaluated on the code. The feed SKU "AB100" is unmatched and an (archived)
  product has the SKU "AB-100", which normalises to the same key; the guard does not
  find it, because the candidates are narrowed to rows whose raw \<^verbatim>\<open>default_code\<close> holds
  the text "AB10", and the record is created with status missing. The mirrored case of
  the specification (feed "AB-100", product "AB100") is found.
\<close>

theorem relaxed_guard_misses_hyphenated_item:
  "sv_norm_sku (default_code archived_product) = sv_norm_sku (PStr ''AB100'')
   \<and> products guard_env = [archived_product]
   \<and> sv_find_product_by_sku_only_relaxed guard_env ''AB100'' = None
   \<and> map m_sku (missing_products (snd (sync_products_chunked 100 guard_feed guard_env))) = [''AB100'']
   \<and> map m_status (missing_products (snd (sync_products_chunked 100 guard_feed guard_env))) = [Missing]
   \<and> sv_find_product_by_sku_only_relaxed
         (guard_env\<lparr>products := [archived_product\<lparr>default_code := PStr ''AB100''\<rparr>]\<rparr>) ''AB-100'' = Some 7"
  by code_simp


subsection \<open>The resolver\<close>

lemma missing_step_snd:
  "snd (missing_step skus item (c, s)) = resolve_item skus item s"
proof -
  obtain n e where item: "item = (n, e)" by (cases item)
  obtain c1 c2 where c: "c = (c1, c2)" by (cases c)
  show ?thesis
    unfolding item c resolve_item_def missing_step_def
    by (cases "n \<in> skus"; cases "prefix_rejected s e";
        cases "list_ex (is_open_record (record_key n e)) (missing_products s)")
       simp_all
qed

lemma missing_step_pair:
  "missing_step skus item (c, s) = (fst (missing_step skus item (c, s)), resolve_item skus item s)"
  using missing_step_snd[of skus item c s] by (metis prod.collapse)

lemma fold_missing_step:
  "snd (fold (missing_step skus) items (c, s)) = fold (resolve_item skus) items s"
proof (induction items arbitrary: c s)
  case Nil
  then show ?case by simp
next
  case (Cons x xs)
  show ?case
    by (simp, subst missing_step_pair, rule Cons.IH)
qed

lemma process_missing_products_env:
  "snd (process_missing_products d skus s) = fold (resolve_item skus) (by_sku d) s"
  by (simp add: process_missing_products_def fold_missing_step)

lemma resolve_item_cases:
  "resolve_item skus (n, e) s =
     (if n \<in> skus then s
      else if prefix_rejected s e then s
      else if list_ex (is_open_record (record_key n e)) (missing_products s)
      then s\<lparr>missing_products :=
               write_first (is_open_record (record_key n e))
                 (\<lambda>r. r\<lparr>m_sync_date := now s, m_quantity := qty e,
                         m_note := Some (Still_missing (qty e))\<rparr>)
                 (missing_products s)\<rparr>
      else create (new_record_vals n e s) s)"
  unfolding resolve_item_def missing_step_def
  by (cases "n \<in> skus"; cases "prefix_rejected s e";
      cases "list_ex (is_open_record (record_key n e)) (missing_products s)")
     simp_all

lemma create_fields:
  "products (create v s) = products s"
  "templates (create v s) = templates s"
  "panel_config (create v s) = panel_config s"
  "now (create v s) = now s"
  by (simp_all add: create_def Let_def)

lemma create_rows:
  "missing_products (create v s) =
     \<lparr> m_sku = v_sku v, m_brand = v_brand v, m_main_id = v_main_id v,
       m_barcode = v_barcode v, m_quantity = v_quantity v,
       m_create_date = now s, m_sync_date = v_sync_date v,
       m_status = (if sv_find_product_by_sku_only_relaxed s (v_sku v) = None
                   then (case v_status v of None \<Rightarrow> Missing | Some st \<Rightarrow> st) else Ignored),
       m_note = (case sv_find_product_by_sku_only_relaxed s (v_sku v) of
                   None \<Rightarrow> v_note v | Some i \<Rightarrow> Some (Guard_ignored (v_note v) i)) \<rparr>
     # missing_products s"
  by (cases "sv_find_product_by_sku_only_relaxed s (v_sku v)")
     (simp_all add: create_def prepare_vals_def Let_def)


lemma write_first_fixed:
  "(\<And>r. fixed_fields (f r) = fixed_fields r) \<Longrightarrow>
   map fixed_fields (write_first P f rs) = map fixed_fields rs"
  by (induction rs) simp_all

lemma touch_fixed:
  "fixed_fields (r\<lparr>m_sync_date := t, m_quantity := q, m_note := n\<rparr>) = fixed_fields r"
  by (simp add: fixed_fields_def)

lemma write_first_open:
  "(\<And>r. m_status (f r) = m_status r) \<Longrightarrow> (\<And>r. fixed_fields (f r) = fixed_fields r) \<Longrightarrow>
   map fixed_fields (filter (\<lambda>r. m_status r = Missing) (write_first P f rs)) =
   map fixed_fields (filter (\<lambda>r. m_status r = Missing) rs)"
  by (induction rs) simp_all

lemma write_first_ex:
  "(\<And>r. Q (f r) = Q r) \<Longrightarrow> list_ex Q (write_first P f rs) = list_ex Q rs"
  by (induction rs) simp_all

lemma write_first_length: "length (write_first P f rs) = length rs"
  by (induction rs) simp_all

lemma touch_open:
  "is_open_record k (r\<lparr>m_sync_date := t, m_quantity := q, m_note := n\<rparr>) = is_open_record k r"
  by (simp add: is_open_record_def)

lemma sv_find_cong:
  assumes p: "products s' = products s" and t: "templates s' = templates s"
  shows "sv_find_product_by_sku_only_relaxed s' k = sv_find_product_by_sku_only_relaxed s k"
  unfolding sv_find_product_by_sku_only_relaxed_def p t by (rule refl)

lemma prefix_rejected_cong:
  "panel_config s' = panel_config s \<Longrightarrow> prefix_rejected s' e = prefix_rejected s e"
  by (simp add: prefix_rejected_def filter_enabled_def allowed_prefix_list_def)

lemma resolve_item_fields:
  "products (resolve_item skus item s) = products s"
  "templates (resolve_item skus item s) = templates s"
  "panel_config (resolve_item skus item s) = panel_config s"
  "now (resolve_item skus item s) = now s"
  by (cases item, simp add: resolve_item_cases create_fields)+

lemma new_record_vals_sku: "v_sku (new_record_vals n e s) = record_key n e"
  "v_status (new_record_vals n e s) = None"
  by (simp_all add: new_record_vals_def)

text \<open>What one round does to the rows.\<close>

lemma resolve_item_rows:
  "missing_products (resolve_item skus (n, e) s) =
     (if n \<in> skus \<or> prefix_rejected s e then missing_products s
      else if list_ex (is_open_record (record_key n e)) (missing_products s)
      then write_first (is_open_record (record_key n e))
                 (\<lambda>r. r\<lparr>m_sync_date := now s, m_quantity := qty e,
                         m_note := Some (Still_missing (qty e))\<rparr>)
                 (missing_products s)
      else missing_products (create (new_record_vals n e s) s))"
  by (simp add: resolve_item_cases)

lemma created_row_status:
  "m_status (hd (missing_products (create (new_record_vals n e s) s))) =
     (if sv_find_product_by_sku_only_relaxed s (record_key n e) = None then Missing else Ignored)"
  "m_sku (hd (missing_products (create (new_record_vals n e s) s))) = record_key n e"
  "tl (missing_products (create (new_record_vals n e s) s)) = missing_products s"
  "missing_products (create (new_record_vals n e s) s) \<noteq> []"
  by (simp_all add: create_rows new_record_vals_sku)


lemma open_ex_step:
  "list_ex (is_open_record k) (missing_products s) \<Longrightarrow>
   list_ex (is_open_record k) (missing_products (resolve_item skus (n, e) s))"
proof -
  assume h: "list_ex (is_open_record k) (missing_products s)"
  have c: "list_ex (is_open_record k) (missing_products (create (new_record_vals n e s) s))"
    using h created_row_status(3,4)[of n e s]
    by (cases "missing_products (create (new_record_vals n e s) s)") auto
  show ?thesis
    using h c by (simp add: resolve_item_rows write_first_ex touch_open)
qed

lemma resolve_item_find:
  "sv_find_product_by_sku_only_relaxed (resolve_item skus item s) k =
   sv_find_product_by_sku_only_relaxed s k"
  by (rule sv_find_cong) (simp_all add: resolve_item_fields)

lemma resolve_item_prefix:
  "prefix_rejected (resolve_item skus item s) e = prefix_rejected s e"
  by (rule prefix_rejected_cong) (simp add: resolve_item_fields)

lemma settled_step:
  assumes "settled skus s item'"
  shows "settled skus (resolve_item skus item s) item'"
proof -
  obtain n e where item: "item = (n, e)" by (cases item)
  have o: "list_ex (is_open_record k) (missing_products (resolve_item skus item s))"
    if "list_ex (is_open_record k) (missing_products s)" for k
    unfolding item using that by (rule open_ex_step)
  show ?thesis
    using assms o by (auto simp add: settled_def resolve_item_find resolve_item_prefix)
qed

lemma settled_after_pair:
  "settled skus (resolve_item skus (n, e) s) (n, e)"
proof -
  let ?k = "record_key n e"
  show ?thesis
  proof (cases "n \<in> skus \<or> prefix_rejected s e \<or> sv_find_product_by_sku_only_relaxed s ?k \<noteq> None")
    case True
    then show ?thesis by (auto simp add: settled_def resolve_item_find resolve_item_prefix)
  next
    case False
    show ?thesis
    proof (cases "list_ex (is_open_record ?k) (missing_products s)")
      case True
      then have "list_ex (is_open_record ?k) (missing_products (resolve_item skus (n, e) s))"
        by (rule open_ex_step)
      then show ?thesis by (simp add: settled_def)
    next
      case no: False
      let ?rows = "missing_products (create (new_record_vals n e s) s)"
      have rows: "missing_products (resolve_item skus (n, e) s) = ?rows"
        using False no by (simp add: resolve_item_rows)
      have "is_open_record ?k (hd ?rows)"
        using False created_row_status(1,2)[of n e s] by (simp add: is_open_record_def)
      then have "list_ex (is_open_record ?k) ?rows"
        using created_row_status(4)[of n e s] by (cases ?rows) auto
      then show ?thesis by (simp add: settled_def rows)
    qed
  qed
qed

lemma settled_after: "settled skus (resolve_item skus item s) item"
  by (cases item) (simp add: settled_after_pair)

lemma open_records_step:
  assumes "settled skus s item"
  shows "map fixed_fields (open_records (resolve_item skus item s)) = map fixed_fields (open_records s)"
proof -
  obtain n e where item: "item = (n, e)" by (cases item)
  let ?k = "record_key n e"
  let ?rows = "missing_products (create (new_record_vals n e s) s)"
  have created: "map fixed_fields (filter (\<lambda>r. m_status r = Missing) ?rows) =
                 map fixed_fields (filter (\<lambda>r. m_status r = Missing) (missing_products s))"
    if "sv_find_product_by_sku_only_relaxed s ?k \<noteq> None"
    using that created_row_status[of n e s] by (cases ?rows) auto
  show ?thesis
    using assms created
    unfolding settled_def item open_records_def
    by (auto simp add: resolve_item_rows write_first_open touch_fixed)
qed

lemma fold_settled_keep:
  "settled skus s item' \<Longrightarrow> settled skus (fold (resolve_item skus) items s) item'"
  by (induction items arbitrary: s) (simp_all add: settled_step)

lemma fold_settled_all:
  "item \<in> set items \<Longrightarrow> settled skus (fold (resolve_item skus) items s) item"
proof (induction items arbitrary: s)
  case Nil
  then show ?case by simp
next
  case (Cons x xs)
  show ?case
  proof (cases "item = x")
    case True
    then show ?thesis using fold_settled_keep[OF settled_after, of skus xs x s] by simp
  next
    case False
    then show ?thesis using Cons by simp
  qed
qed

lemma fold_open_records:
  "(\<And>item. item \<in> set items \<Longrightarrow> settled skus s item) \<Longrightarrow>
   map fixed_fields (open_records (fold (resolve_item skus) items s)) = map fixed_fields (open_records s)"
proof (induction items arbitrary: s)
  case Nil
  then show ?case by simp
next
  case (Cons x xs)
  have "map fixed_fields (open_records (fold (resolve_item skus) xs (resolve_item skus x s))) =
        map fixed_fields (open_records (resolve_item skus x s))"
    by (rule Cons.IH) (simp add: Cons.prems settled_step)
  also have "\<dots> = map fixed_fields (open_records s)"
    by (rule open_records_step) (simp add: Cons.prems)
  finally show ?case by simp
qed

lemma settled_now: "settled skus (s\<lparr>now := t\<rparr>) item = settled skus s item"
proof -
  have f: "sv_find_product_by_sku_only_relaxed (s\<lparr>now := t\<rparr>) k =
           sv_find_product_by_sku_only_relaxed s k" for k
    by (rule sv_find_cong) simp_all
  have p: "prefix_rejected (s\<lparr>now := t\<rparr>) e' = prefix_rejected s e'" for e'
    by (rule prefix_rejected_cong) simp
  show ?thesis by (simp add: settled_def f p)
qed


lemma write_first_find:
  "(\<And>r. P (f r) = P r) \<Longrightarrow> find P (write_first P f rs) = map_option f (find P rs)"
  by (induction rs) simp_all

lemma find_list_ex: "find P rs = Some r \<Longrightarrow> list_ex P rs"
  by (induction rs) (auto split: if_splits)

lemma resolve_item_in_place:
  assumes "list_ex (is_open_record (record_key n e)) (missing_products s)"
  shows "length (missing_products (resolve_item skus (n, e) s)) = length (missing_products s)"
    and "map fixed_fields (missing_products (resolve_item skus (n, e) s)) =
         map fixed_fields (missing_products s)"
  using assms by (simp_all add: resolve_item_rows write_first_length write_first_fixed touch_fixed)

lemma resolve_item_touch:
  assumes "n \<notin> skus" and "\<not> prefix_rejected s e"
    and "find (is_open_record (record_key n e)) (missing_products s) = Some r"
  shows "find (is_open_record (record_key n e)) (missing_products (resolve_item skus (n, e) s)) =
         Some (r\<lparr>m_sync_date := now s, m_quantity := qty e, m_note := Some (Still_missing (qty e))\<rparr>)"
  using assms find_list_ex[OF assms(3)]
  by (simp add: resolve_item_rows write_first_find touch_open)

lemma resolver_twice:
  "map fixed_fields (open_records (snd (process_missing_products d skus
        ((snd (process_missing_products d skus s))\<lparr>now := t\<rparr>)))) =
   map fixed_fields (open_records (snd (process_missing_products d skus s)))"
proof -
  let ?s1 = "fold (resolve_item skus) (by_sku d) s"
  have "settled skus (?s1\<lparr>now := t\<rparr>) item" if "item \<in> set (by_sku d)" for item
    using fold_settled_all[OF that, of skus s] by (simp add: settled_now)
  then have "map fixed_fields (open_records (fold (resolve_item skus) (by_sku d) (?s1\<lparr>now := t\<rparr>))) =
             map fixed_fields (open_records (?s1\<lparr>now := t\<rparr>))"
    by (rule fold_open_records)
  then show ?thesis
    by (simp add: process_missing_products_env open_records_def)
qed

subsection \<open>The database after a run\<close>

lemma chunk_loop_state: "snd (chunk_loop d n cs st s) = chunks_state d cs s"
proof (induction cs arbitrary: n st s)
  case Nil
  then show ?case by (simp add: chunks_state_def)
next
  case (Cons c cs)
  obtain k S s1 where r: "process_product_chunk d c s = ((k, S), s1)"
    by (cases "process_product_chunk d c s") auto
  show ?case
    using Cons.IH by (simp add: r chunks_state_def Let_def)
qed

lemma chunks_state_Cons:
  "chunks_state d (c # cs) s = chunks_state d cs (snd (process_product_chunk d c s))"
  by (simp add: chunks_state_def)

lemma chunk_fields:
  "stock_location (snd (process_product_chunk d c s)) = stock_location s"
  "commit_fails (snd (process_product_chunk d c s)) = commit_fails s"
  "products (snd (process_product_chunk d c s)) = products s"
  "templates (snd (process_product_chunk d c s)) = templates s"
  "missing_products (snd (process_product_chunk d c s)) = missing_products s"
  "panel_config (snd (process_product_chunk d c s)) = panel_config s"
  "now (snd (process_product_chunk d c s)) = now s"
  by (simp_all add: process_product_chunk_def process_product_loop_fields)

lemma chunks_state_fields:
  "stock_location (chunks_state d cs s) = stock_location s \<and>
   products (chunks_state d cs s) = products s \<and>
   templates (chunks_state d cs s) = templates s \<and>
   missing_products (chunks_state d cs s) = missing_products s \<and>
   panel_config (chunks_state d cs s) = panel_config s \<and>
   now (chunks_state d cs s) = now s"
  by (induction cs arbitrary: s) (simp_all add: chunks_state_def chunk_fields)

lemma chunk_published:
  "website_published (snd (process_product_chunk d c s)) t =
     (if filter (\<lambda>p. product_tmpl_id p = Some t \<and> \<not> item_raises d p s) c = []
      then website_published s t
      else item_publish (last (filter (\<lambda>p. product_tmpl_id p = Some t \<and> \<not> item_raises d p s) c)))"
  unfolding process_product_chunk_def by (rule loop_published)

lemma chunk_unpublished:
  "unpublished_products (snd (process_product_chunk d c s)) =
     unpublished_products s @
     map (\<lambda>p. item_unpublished_row d p (now s))
       (filter (\<lambda>p. \<not> item_raises d p s \<and> product_tmpl_id p \<noteq> None \<and> \<not> item_publish p) c)"
  unfolding process_product_chunk_def by (rule loop_unpublished)

lemma chunks_state_published:
  "website_published (chunks_state d cs s) t =
     (if filter (\<lambda>p. product_tmpl_id p = Some t \<and> \<not> item_raises d p s) (concat cs) = []
      then website_published s t
      else item_publish (last (filter (\<lambda>p. product_tmpl_id p = Some t \<and> \<not> item_raises d p s)
                                 (concat cs))))"
proof (induction cs arbitrary: s)
  case Nil
  then show ?case by (simp add: chunks_state_def)
next
  case (Cons c cs)
  let ?s1 = "snd (process_product_chunk d c s)"
  have cong: "item_raises d q ?s1 = item_raises d q s" for q
    by (rule item_raises_cong) (simp add: chunk_fields)
  show ?case
    unfolding chunks_state_Cons
    by (simp add: Cons.IH cong chunk_published)
qed

lemma chunks_state_unpublished:
  "unpublished_products (chunks_state d cs s) =
     unpublished_products s @
     map (\<lambda>p. item_unpublished_row d p (now s))
       (filter (\<lambda>p. \<not> item_raises d p s \<and> product_tmpl_id p \<noteq> None \<and> \<not> item_publish p)
          (concat cs))"
proof (induction cs arbitrary: s)
  case Nil
  then show ?case by (simp add: chunks_state_def)
next
  case (Cons c cs)
  let ?s1 = "snd (process_product_chunk d c s)"
  have cong: "item_raises d q ?s1 = item_raises d q s" for q
    by (rule item_raises_cong) (simp add: chunk_fields)
  show ?case
    unfolding chunks_state_Cons
    by (simp add: Cons.IH cong chunk_fields chunk_unpublished)
qed

lemma create_other_fields:
  "website_published (create v s) = website_published s"
  "unpublished_products (create v s) = unpublished_products s"
  "stock_quant (create v s) = stock_quant s"
  "sync_log (create v s) = sync_log s"
  "stock_location (create v s) = stock_location s"
  by (simp_all add: create_def Let_def)

lemma resolve_item_other_fields:
  "website_published (resolve_item skus item s) = website_published s"
  "unpublished_products (resolve_item skus item s) = unpublished_products s"
  "stock_quant (resolve_item skus item s) = stock_quant s"
  "sync_log (resolve_item skus item s) = sync_log s"
  by (cases item, simp add: resolve_item_cases create_other_fields)+

lemma fold_resolve_other_fields:
  "website_published (fold (resolve_item skus) items s) = website_published s \<and>
   unpublished_products (fold (resolve_item skus) items s) = unpublished_products s \<and>
   stock_quant (fold (resolve_item skus) items s) = stock_quant s \<and>
   sync_log (fold (resolve_item skus) items s) = sync_log s"
  by (induction items arbitrary: s) (simp_all add: resolve_item_other_fields)

lemma resolver_other_fields:
  "website_published (snd (process_missing_products d skus s)) = website_published s"
  "unpublished_products (snd (process_missing_products d skus s)) = unpublished_products s"
  "stock_quant (snd (process_missing_products d skus s)) = stock_quant s"
  "sync_log (snd (process_missing_products d skus s)) = sync_log s"
  by (simp_all add: process_missing_products_env fold_resolve_other_fields)


lemma sync_products_chunked_state:
  assumes "fetch_api_data feed = Some d" and "0 < chunk_size"
  shows "snd (sync_products_chunked chunk_size feed s) =
     snd (process_missing_products d
            (\<Union>p \<in> set (filter (\<lambda>p. \<not> item_raises d p s) (all_products s)). item_keys d p)
            (chunks_state d
               (chunks (effective_chunk_size chunk_size (length (all_products s))) (all_products s)) s))"
proof -
  let ?n = "effective_chunk_size chunk_size (length (all_products s))"
  let ?st0 = "\<lparr> processed = 0, failed = 0, matched_skus = {} \<rparr>"
  have n: "0 < ?n" using assms(2) by (rule effective_chunk_size_pos)
  obtain st s1 where r: "chunk_loop d 1 (chunks ?n (all_products s)) ?st0 s = (st, s1)"
    by (cases "chunk_loop d 1 (chunks ?n (all_products s)) ?st0 s")
  have st: "matched_skus st =
     (\<Union>p \<in> set (filter (\<lambda>p. \<not> item_raises d p s) (all_products s)). item_keys d p)"
  proof -
    have "fst (chunk_loop d 1 (chunks ?n (all_products s)) ?st0 s) = st"
      using r by simp
    then have "matched_skus (fst (chunk_loop d 1 (chunks ?n (all_products s)) ?st0 s)) =
               matched_skus st"
      by (rule arg_cong)
    then show ?thesis
      by (simp add: chunk_loop_result concat_chunks[OF n])
  qed
  have s1: "s1 = chunks_state d (chunks ?n (all_products s)) s"
    using arg_cong[OF r, of snd] by (simp add: chunk_loop_state)
  have "snd (sync_products_chunked chunk_size feed s) =
        snd (process_missing_products d (matched_skus st) s1)"
    using n by (simp add: sync_products_chunked_def assms(1) Let_def r del: One_nat_def)
  then show ?thesis by (simp only: st s1)
qed

lemma run_sync_state:
  "website_published (run_sync feed s) =
     website_published (snd (sync_products_chunked 100 feed (clear_previous_logs s)))"
  "unpublished_products (run_sync feed s) =
     unpublished_products (snd (sync_products_chunked 100 feed (clear_previous_logs s)))"
  "missing_products (run_sync feed s) =
     missing_products (snd (sync_products_chunked 100 feed (clear_previous_logs s)))"
  by (simp_all add: run_sync_def split: prod.split sum.split)

lemma clear_fields:
  "all_products (clear_previous_logs s) = all_products s"
  "website_published (clear_previous_logs s) = website_published s"
  "unpublished_products (clear_previous_logs s) = []"
  "now (clear_previous_logs s) = now s"
  "stock_location (clear_previous_logs s) = stock_location s"
  by (simp_all add: clear_previous_logs_def Let_def all_products_def)

lemma item_raises_clear: "item_raises d p (clear_previous_logs s) = item_raises d p s"
  by (rule item_raises_cong) (simp add: clear_fields)

lemma run_published:
  assumes "fetch_api_data feed = Some d"
  shows "website_published (run_sync feed s) t =
     (if filter (\<lambda>p. product_tmpl_id p = Some t \<and> \<not> item_raises d p s) (all_products s) = []
      then website_published s t
      else item_publish (last (filter (\<lambda>p. product_tmpl_id p = Some t \<and> \<not> item_raises d p s)
                                 (all_products s))))"
proof -
  have n: "0 < effective_chunk_size 100 (length (all_products s))"
    by (rule effective_chunk_size_pos) simp
  show ?thesis
    by (simp add: run_sync_state sync_products_chunked_state[OF assms] resolver_other_fields
        chunks_state_published concat_chunks[OF n] clear_fields item_raises_clear)
qed

lemma run_unpublished:
  assumes "fetch_api_data feed = Some d"
  shows "unpublished_products (run_sync feed s) =
     map (\<lambda>p. item_unpublished_row d p (now s))
       (filter (\<lambda>p. \<not> item_raises d p s \<and> product_tmpl_id p \<noteq> None \<and> \<not> item_publish p)
          (all_products s))"
proof -
  have n: "0 < effective_chunk_size 100 (length (all_products s))"
    by (rule effective_chunk_size_pos) simp
  show ?thesis
    by (simp add: run_sync_state sync_products_chunked_state[OF assms] resolver_other_fields
        chunks_state_unpublished concat_chunks[OF n] clear_fields item_raises_clear)
qed

lemma unpublished_row_fields:
  "u_sku (item_unpublished_row d p u) =
     (if truthy (default_code p) then Sku (py_str (default_code p)) else No_sku (p_id p))"
  "u_missing_fields (item_unpublished_row d p u) =
     (if \<not> has_identifier (default_code p) \<and> \<not> has_identifier (p_barcode p)
      then ''SKU and barcode''
      else if \<not> has_identifier (default_code p) then ''SKU''
      else if \<not> has_identifier (p_barcode p) then ''barcode'' else ''Other'')"
  by (simp_all add: item_unpublished_row_def unpublished_row_def missing_parts_of_def join_and_def)


text \<open>
  Claim C3, as the code has it (ASCII texts). The flag is written on the template, once
  for every variant that is processed without an exception. So after a run the flag of a
  template is "has a valid SKU and has a valid barcode" of the last such variant,
  whatever the flag was before, and the flag of a template with no such variant is left as
  it was; for a template with a single variant, processed without an exception, it is
  that item's value. The unpublished-products table after the run holds exactly one row
  for every item with a template that was processed without an exception and whose value
  is false, in processing order; the row names the item and the fields that are missing.
  The same holds step by step, right after one item is processed. An identifier is valid
  when the sanitize of the specification leaves it non-empty.
\<close>

theorem published_flag_after_run:
  "(ascii_feed feed \<and> list_all ascii_product (all_products s) \<and> fetch_api_data feed = Some d \<longrightarrow>
      website_published (run_sync feed s) t =
        (if filter (\<lambda>q. product_tmpl_id q = Some t \<and> \<not> item_raises d q s) (all_products s) = []
         then website_published s t
         else item_publish (last (filter (\<lambda>q. product_tmpl_id q = Some t \<and> \<not> item_raises d q s)
                                    (all_products s))))
    \<and> unpublished_products (run_sync feed s) =
        map (\<lambda>q. item_unpublished_row d q (now s))
          (filter (\<lambda>q. \<not> item_raises d q s \<and> product_tmpl_id q \<noteq> None \<and> \<not> item_publish q)
             (all_products s))
    \<and> (filter (\<lambda>q. product_tmpl_id q = Some t) (all_products s) = [p] \<and> \<not> item_raises d p s \<longrightarrow>
         website_published (run_sync feed s) t = item_publish p))
   \<and> (ascii_product p \<longrightarrow>
        website_published (snd (process_single_product d p s)) t =
          (if product_tmpl_id p = Some t \<and> \<not> item_raises d p s then item_publish p
           else website_published s t)
      \<and> unpublished_products (snd (process_single_product d p s)) =
          unpublished_products s @
          (if \<not> item_raises d p s \<and> product_tmpl_id p \<noteq> None \<and> \<not> item_publish p
           then [item_unpublished_row d p (now s)] else [])
      \<and> item_publish p = (has_identifier (default_code p) \<and> has_identifier (p_barcode p))
      \<and> has_identifier (default_code p) = (sanitize_spec (default_code p) \<noteq> [])
      \<and> has_identifier (p_barcode p) = (sanitize_spec (p_barcode p) \<noteq> [])
      \<and> u_sku (item_unpublished_row d p u) =
           (if truthy (default_code p) then Sku (py_str (default_code p)) else No_sku (p_id p))
      \<and> u_missing_fields (item_unpublished_row d p u) =
           (if \<not> has_identifier (default_code p) \<and> \<not> has_identifier (p_barcode p)
            then ''SKU and barcode''
            else if \<not> has_identifier (default_code p) then ''SKU''
            else if \<not> has_identifier (p_barcode p) then ''barcode'' else ''Other''))"
proof (intro conjI impI)
  assume h: "ascii_feed feed \<and> list_all ascii_product (all_products s) \<and> fetch_api_data feed = Some d"
  then have f: "fetch_api_data feed = Some d" by simp
  show flag: "website_published (run_sync feed s) t =
        (if filter (\<lambda>q. product_tmpl_id q = Some t \<and> \<not> item_raises d q s) (all_products s) = []
         then website_published s t
         else item_publish (last (filter (\<lambda>q. product_tmpl_id q = Some t \<and> \<not> item_raises d q s)
                                    (all_products s))))"
    by (rule run_published[OF f])
  show "unpublished_products (run_sync feed s) =
        map (\<lambda>q. item_unpublished_row d q (now s))
          (filter (\<lambda>q. \<not> item_raises d q s \<and> product_tmpl_id q \<noteq> None \<and> \<not> item_publish q)
             (all_products s))"
    by (rule run_unpublished[OF f])
  assume one: "filter (\<lambda>q. product_tmpl_id q = Some t) (all_products s) = [p] \<and> \<not> item_raises d p s"
  have "filter (\<lambda>q. product_tmpl_id q = Some t \<and> \<not> item_raises d q s) (all_products s) =
        filter (\<lambda>q. \<not> item_raises d q s) (filter (\<lambda>q. product_tmpl_id q = Some t) (all_products s))"
    by (simp add: conj_commute)
  also have "\<dots> = [p]" using one by simp
  finally show "website_published (run_sync feed s) t = item_publish p"
    using flag by simp
next
  show "website_published (snd (process_single_product d p s)) t =
          (if product_tmpl_id p = Some t \<and> \<not> item_raises d p s then item_publish p
           else website_published s t)"
    by (rule process_single_published)
  show "unpublished_products (snd (process_single_product d p s)) =
          unpublished_products s @
          (if \<not> item_raises d p s \<and> product_tmpl_id p \<noteq> None \<and> \<not> item_publish p
           then [item_unpublished_row d p (now s)] else [])"
    by (rule process_single_unpublished)
  show "item_publish p = (has_identifier (default_code p) \<and> has_identifier (p_barcode p))"
    by (simp add: item_publish_def)
  show "has_identifier (default_code p) = (sanitize_spec (default_code p) \<noteq> [])"
    by (rule has_identifier_spec)
  show "has_identifier (p_barcode p) = (sanitize_spec (p_barcode p) \<noteq> [])"
    by (rule has_identifier_spec)
  show "u_sku (item_unpublished_row d p u) =
        (if truthy (default_code p) then Sku (py_str (default_code p)) else No_sku (p_id p))"
    by (rule unpublished_row_fields)
  show "u_missing_fields (item_unpublished_row d p u) =
        (if \<not> has_identifier (default_code p) \<and> \<not> has_identifier (p_barcode p)
         then ''SKU and barcode''
         else if \<not> has_identifier (default_code p) then ''SKU''
         else if \<not> has_identifier (p_barcode p) then ''barcode'' else ''Other'')"
    by (rule unpublished_row_fields)
qed

text \<open>
  The statement in the scenario: the product "ABC123" has lost its barcode and was
  published; after the run it is unpublished, with one row naming it and the barcode.
\<close>

theorem published_flag_after_run_witness:
  "ascii_feed scenario_feed \<and> list_all ascii_product (all_products scenario_env)
   \<and> fetch_api_data scenario_feed = Some scenario_data
   \<and> filter (\<lambda>q. product_tmpl_id q = Some 3) (all_products scenario_env) = [scenario_product]
   \<and> \<not> item_raises scenario_data scenario_product scenario_env
   \<and> ascii_product scenario_product
   \<and> has_identifier (default_code scenario_product)
   \<and> \<not> has_identifier (p_barcode scenario_product)
   \<and> website_published scenario_env 3
   \<and> \<not> website_published (run_sync scenario_feed scenario_env) 3
   \<and> unpublished_products (run_sync scenario_feed scenario_env) =
       [item_unpublished_row scenario_data scenario_product (now scenario_env)]
   \<and> u_sku (item_unpublished_row scenario_data scenario_product (now scenario_env)) = Sku ''ABC123''
   \<and> u_missing_fields (item_unpublished_row scenario_data scenario_product (now scenario_env)) =
       ''barcode''"
proof -
  have a: "ascii_feed scenario_feed" by code_simp
  have b: "list_all ascii_product (all_products scenario_env)" by code_simp
  have c: "fetch_api_data scenario_feed = Some scenario_data" by (rule scenario_fetch)
  have e: "filter (\<lambda>q. product_tmpl_id q = Some 3) (all_products scenario_env) = [scenario_product]"
    by (simp add: all_products_def scenario_env_def scenario_product_def)
  have f: "\<not> item_raises scenario_data scenario_product scenario_env" by code_simp
  have g: "ascii_product scenario_product" by code_simp
  have hs: "has_identifier (default_code scenario_product)" by code_simp
  have hb: "\<not> has_identifier (p_barcode scenario_product)" by code_simp
  have t: "truthy (default_code scenario_product)"
    "py_str (default_code scenario_product) = ''ABC123''"
    "product_tmpl_id scenario_product \<noteq> None"
    by (simp_all add: scenario_product_def)
  have w: "website_published scenario_env 3" by (simp add: scenario_env_def)
  have all: "all_products scenario_env = [scenario_product]"
    by (simp add: all_products_def scenario_env_def scenario_product_def)
  note th = published_flag_after_run[where feed = scenario_feed and s = scenario_env
      and d = scenario_data and t = 3 and p = scenario_product and u = "now scenario_env"]
  note th2 = th[THEN conjunct2, THEN mp, OF g]
  have p: "\<not> item_publish scenario_product" using th2 hb by simp
  have c1: "website_published (run_sync scenario_feed scenario_env) 3 = item_publish scenario_product"
    using th a b c e f by blast
  have c2: "unpublished_products (run_sync scenario_feed scenario_env) =
       [item_unpublished_row scenario_data scenario_product (now scenario_env)]"
    using th a b c f p t(3) by (simp add: all)
  have c3: "u_sku (item_unpublished_row scenario_data scenario_product (now scenario_env)) = Sku ''ABC123''"
    using th2 t by simp
  have c4: "u_missing_fields (item_unpublished_row scenario_data scenario_product (now scenario_env)) =
       ''barcode''"
    using th2 hs hb by simp
  show ?thesis using a b c e f g hs hb w p c1 c2 c3 c4 by simp
qed

text \<open>
  Claim C3 as stated fails for variants that share a template: the product with SKU
  "ABC123" and barcode "111" is valid and processed, but the variant without a SKU is
  processed after it and the run leaves their template unpublished.
\<close>

theorem shared_template_counterexample:
  "product_both \<in> set (all_products two_env)
   \<and> product_tmpl_id product_both = Some 3
   \<and> has_identifier (default_code product_both) \<and> has_identifier (p_barcode product_both)
   \<and> \<not> item_raises two_data product_both two_env
   \<and> fetch_api_data two_feed = Some two_data
   \<and> \<not> website_published (run_sync two_feed two_env) 3"
  by code_simp


subsection \<open>The second pass of the resolver\<close>

lemma new_record_vals_indep:
  "v_brand (new_record_vals n e s) = v_brand (new_record_vals n e s0)"
  "v_main_id (new_record_vals n e s) = v_main_id (new_record_vals n e s0)"
  "v_barcode (new_record_vals n e s) = v_barcode (new_record_vals n e s0)"
  by (simp_all add: new_record_vals_def)

lemma created_row_fixed:
  "sv_find_product_by_sku_only_relaxed s (record_key n e) \<noteq> None \<Longrightarrow>
   map fixed_fields (missing_products (create (new_record_vals n e s) s)) =
     (record_key n e, v_brand (new_record_vals n e s0), v_main_id (new_record_vals n e s0),
      v_barcode (new_record_vals n e s0), now s, Ignored) # map fixed_fields (missing_products s)"
  using new_record_vals_indep[of n e s s0]
  by (simp add: create_rows new_record_vals_sku fixed_fields_def)

lemma created_row_open:
  "sv_find_product_by_sku_only_relaxed s (record_key n e) \<noteq> None \<Longrightarrow>
   list_ex (is_open_record k) (missing_products (create (new_record_vals n e s) s)) =
   list_ex (is_open_record k) (missing_products s)"
  by (auto simp add: create_rows new_record_vals_sku is_open_record_def)

lemma settled_step_open:
  assumes "settled skus s (n, e)"
  shows "list_ex (is_open_record k) (missing_products (resolve_item skus (n, e) s)) =
         list_ex (is_open_record k) (missing_products s)"
proof (cases "n \<in> skus \<or> prefix_rejected s e")
  case True
  then show ?thesis by (simp add: resolve_item_rows)
next
  case False
  show ?thesis
  proof (cases "list_ex (is_open_record (record_key n e)) (missing_products s)")
    case True
    then show ?thesis using False by (simp add: resolve_item_rows write_first_ex touch_open)
  next
    case no: False
    have g: "sv_find_product_by_sku_only_relaxed s (record_key n e) \<noteq> None"
      using assms False no by (simp add: settled_def)
    show ?thesis using False no by (simp add: resolve_item_rows created_row_open[OF g])
  qed
qed

lemma settled_step_rows:
  assumes "settled skus s (n, e)"
  shows "map fixed_fields (missing_products (resolve_item skus (n, e) s)) =
     (if n \<notin> skus \<and> \<not> prefix_rejected s e \<and>
         \<not> list_ex (is_open_record (record_key n e)) (missing_products s)
      then [(record_key n e, v_brand (new_record_vals n e s0), v_main_id (new_record_vals n e s0),
             v_barcode (new_record_vals n e s0), now s, Ignored)]
      else []) @ map fixed_fields (missing_products s)"
proof (cases "n \<in> skus \<or> prefix_rejected s e")
  case True
  then show ?thesis by (auto simp add: resolve_item_rows)
next
  case False
  show ?thesis
  proof (cases "list_ex (is_open_record (record_key n e)) (missing_products s)")
    case True
    then show ?thesis using False by (simp add: resolve_item_rows write_first_fixed touch_fixed)
  next
    case no: False
    have g: "sv_find_product_by_sku_only_relaxed s (record_key n e) \<noteq> None"
      using assms False no by (simp add: settled_def)
    show ?thesis using False no by (simp add: resolve_item_rows created_row_fixed[OF g])
  qed
qed

lemma fold_settled_rows:
  "(\<And>item. item \<in> set items \<Longrightarrow> settled skus s item) \<Longrightarrow>
   map fixed_fields (missing_products (fold (resolve_item skus) items s)) =
     rev (map (\<lambda>(n, e). (record_key n e, v_brand (new_record_vals n e s0),
                          v_main_id (new_record_vals n e s0),
                          v_barcode (new_record_vals n e s0), now s, Ignored))
            (filter (\<lambda>(n, e). n \<notin> skus \<and> \<not> prefix_rejected s e \<and>
                       \<not> list_ex (is_open_record (record_key n e)) (missing_products s)) items))
     @ map fixed_fields (missing_products s)"
proof (induction items arbitrary: s)
  case Nil
  then show ?case by simp
next
  case (Cons x xs)
  obtain n e where x: "x = (n, e)" by (cases x)
  let ?s1 = "resolve_item skus x s"
  have sx: "settled skus s (n, e)" using Cons.prems x by simp
  have inv: "list_ex (is_open_record k) (missing_products ?s1) =
             list_ex (is_open_record k) (missing_products s)" for k
    unfolding x by (rule settled_step_open[OF sx])
  have ih: "map fixed_fields (missing_products (fold (resolve_item skus) xs ?s1)) =
     rev (map (\<lambda>(n, e). (record_key n e, v_brand (new_record_vals n e s0),
                          v_main_id (new_record_vals n e s0),
                          v_barcode (new_record_vals n e s0), now ?s1, Ignored))
            (filter (\<lambda>(n, e). n \<notin> skus \<and> \<not> prefix_rejected ?s1 e \<and>
                       \<not> list_ex (is_open_record (record_key n e)) (missing_products ?s1)) xs))
     @ map fixed_fields (missing_products ?s1)"
    by (rule Cons.IH) (simp add: Cons.prems settled_step)
  have rows: "map fixed_fields (missing_products ?s1) =
     (if n \<notin> skus \<and> \<not> prefix_rejected s e \<and>
         \<not> list_ex (is_open_record (record_key n e)) (missing_products s)
      then [(record_key n e, v_brand (new_record_vals n e s0), v_main_id (new_record_vals n e s0),
             v_barcode (new_record_vals n e s0), now s, Ignored)]
      else []) @ map fixed_fields (missing_products s)"
    unfolding x by (rule settled_step_rows[OF sx])
  show ?case
    using ih unfolding rows inv resolve_item_prefix resolve_item_fields
    by (simp add: x)
qed

lemma second_pass_rows:
  "map fixed_fields (missing_products (snd (process_missing_products d skus
        ((snd (process_missing_products d skus s))\<lparr>now := t\<rparr>)))) =
     rev (map (\<lambda>(n, e). (record_key n e, v_brand (new_record_vals n e s0),
                          v_main_id (new_record_vals n e s0),
                          v_barcode (new_record_vals n e s0), t, Ignored))
            (filter (\<lambda>(n, e). n \<notin> skus
                       \<and> \<not> prefix_rejected (snd (process_missing_products d skus s)) e
                       \<and> \<not> list_ex (is_open_record (record_key n e))
                              (missing_products (snd (process_missing_products d skus s))))
               (by_sku d)))
     @ map fixed_fields (missing_products (snd (process_missing_products d skus s)))"
proof -
  let ?s1 = "fold (resolve_item skus) (by_sku d) s"
  have st: "settled skus (?s1\<lparr>now := t\<rparr>) item" if "item \<in> set (by_sku d)" for item
    using fold_settled_all[OF that, of skus s] by (simp add: settled_now)
  have p: "prefix_rejected (?s1\<lparr>now := t\<rparr>) e' = prefix_rejected ?s1 e'" for e'
    by (rule prefix_rejected_cong) simp
  show ?thesis
    using fold_settled_rows[of "by_sku d" skus "?s1\<lparr>now := t\<rparr>" s0, OF st]
    by (simp add: process_missing_products_env p)
qed

lemma second_pass_parts:
  assumes E: "map fixed_fields rows2 =
                rev (map (\<lambda>(n, e). (record_key n e, b n e, m n e, c n e, t, Ignored)) caught)
                @ map fixed_fields rows1"
  shows "length rows2 = length rows1 + length caught"
    and "map fixed_fields (drop (length caught) rows2) = map fixed_fields rows1"
    and "map (\<lambda>r. (m_sku r, m_status r, m_create_date r)) (take (length caught) rows2) =
         rev (map (\<lambda>(n, e). (record_key n e, Ignored, t)) caught)"
proof -
  let ?A = "rev (map (\<lambda>(n, e). (record_key n e, b n e, m n e, c n e, t, Ignored)) caught)"
  have lA: "length ?A = length caught" by simp
  have "length (map fixed_fields rows2) = length (?A @ map fixed_fields rows1)"
    using E by (rule arg_cong)
  then show "length rows2 = length rows1 + length caught" by simp
  have "drop (length caught) (map fixed_fields rows2) =
        drop (length caught) (?A @ map fixed_fields rows1)"
    using E by (rule arg_cong)
  then show "map fixed_fields (drop (length caught) rows2) = map fixed_fields rows1"
    by (simp add: drop_map)
  have "take (length caught) (map fixed_fields rows2) =
        take (length caught) (?A @ map fixed_fields rows1)"
    using E by (rule arg_cong)
  then have T: "map fixed_fields (take (length caught) rows2) = ?A"
    by (simp add: take_map)
  have "map (\<lambda>r. (m_sku r, m_status r, m_create_date r)) (take (length caught) rows2) =
        map (\<lambda>(a, b, c, d, e, f). (a, f, e)) (map fixed_fields (take (length caught) rows2))"
    by (simp add: fixed_fields_def)
  also have "\<dots> = map (\<lambda>(a, b, c, d, e, f). (a, f, e)) ?A"
    by (simp only: T)
  also have "\<dots> = rev (map (\<lambda>(n, e). (record_key n e, Ignored, t)) caught)"
    by (simp add: rev_map case_prod_beta)
  finally show "map (\<lambda>r. (m_sku r, m_status r, m_create_date r)) (take (length caught) rows2) =
         rev (map (\<lambda>(n, e). (record_key n e, Ignored, t)) caught)" .
qed

text \<open>
  Claim C6, as the code has it (ASCII texts). Take the database after one pass of the
  resolver and run a second pass over the same feed, matched set and inventory, at any
  later time \<open>t\<close>. The rows with status missing are the same rows in the same order,
  up to their sync date, quantity and note: none is added, so their count is unchanged.
  The table as a whole grows by one row for every feed record that is unmatched, passes
  the prefix filter and has no row with status missing: these are the records that the
  relaxed-match guard catches, and each gets one more row with status ignored, created at
  \<open>t\<close>, in front of the rows of the first pass, which keep every column but sync date,
  quantity and note. In a round whose SKU already has a row with status missing no row is
  created and no other column of any row changes; the row found gets the new sync date,
  quantity and note.
\<close>

theorem second_pass_adds_only_ignored:
  "(ascii_feed feed \<and> ascii_env s \<and> fetch_api_data feed = Some d \<longrightarrow>
      (let s1 = snd (process_missing_products d skus s);
           s2 = snd (process_missing_products d skus (s1\<lparr>now := t\<rparr>));
           caught = filter (\<lambda>(n, e). n \<notin> skus \<and> \<not> prefix_rejected s1 e \<and>
                               \<not> list_ex (is_open_record (record_key n e)) (missing_products s1))
                      (by_sku d)
       in map fixed_fields (open_records s2) = map fixed_fields (open_records s1)
          \<and> length (open_records s2) = length (open_records s1)
          \<and> length (missing_products s2) = length (missing_products s1) + length caught
          \<and> map fixed_fields (drop (length caught) (missing_products s2)) =
              map fixed_fields (missing_products s1)
          \<and> map (\<lambda>r. (m_sku r, m_status r, m_create_date r))
                (take (length caught) (missing_products s2)) =
              rev (map (\<lambda>(n, e). (record_key n e, Ignored, t)) caught)))
   \<and> (ascii_feed feed \<and> ascii_env s \<and> fetch_api_data feed = Some d \<and> (n, e) \<in> set (by_sku d)
        \<and> list_ex (is_open_record (record_key n e)) (missing_products s) \<longrightarrow>
        length (missing_products (resolve_item skus (n, e) s)) = length (missing_products s)
      \<and> map fixed_fields (missing_products (resolve_item skus (n, e) s)) =
          map fixed_fields (missing_products s))
   \<and> (ascii_feed feed \<and> ascii_env s \<and> fetch_api_data feed = Some d \<and> (n, e) \<in> set (by_sku d)
        \<and> n \<notin> skus \<and> \<not> prefix_rejected s e
        \<and> find (is_open_record (record_key n e)) (missing_products s) = Some r \<longrightarrow>
        find (is_open_record (record_key n e)) (missing_products (resolve_item skus (n, e) s)) =
          Some (r\<lparr>m_sync_date := now s, m_quantity := qty e,
                  m_note := Some (Still_missing (qty e))\<rparr>))"
proof (intro conjI impI)
  let ?s1 = "snd (process_missing_products d skus s)"
  let ?s2 = "snd (process_missing_products d skus (?s1\<lparr>now := t\<rparr>))"
  let ?caught = "filter (\<lambda>(n, e). n \<notin> skus \<and> \<not> prefix_rejected ?s1 e \<and>
                           \<not> list_ex (is_open_record (record_key n e)) (missing_products ?s1))
                   (by_sku d)"
  have o: "map fixed_fields (open_records ?s2) = map fixed_fields (open_records ?s1)"
    by (rule resolver_twice)
  then have "length (map fixed_fields (open_records ?s2)) =
             length (map fixed_fields (open_records ?s1))"
    by (rule arg_cong)
  then have l: "length (open_records ?s2) = length (open_records ?s1)" by simp
  have E: "map fixed_fields (missing_products ?s2) =
     rev (map (\<lambda>(n, e). (record_key n e, v_brand (new_record_vals n e s),
                          v_main_id (new_record_vals n e s),
                          v_barcode (new_record_vals n e s), t, Ignored)) ?caught)
     @ map fixed_fields (missing_products ?s1)"
    by (rule second_pass_rows)
  note parts = second_pass_parts[OF E]
  show "let s1 = snd (process_missing_products d skus s);
           s2 = snd (process_missing_products d skus (s1\<lparr>now := t\<rparr>));
           caught = filter (\<lambda>(n, e). n \<notin> skus \<and> \<not> prefix_rejected s1 e \<and>
                               \<not> list_ex (is_open_record (record_key n e)) (missing_products s1))
                      (by_sku d)
       in map fixed_fields (open_records s2) = map fixed_fields (open_records s1)
          \<and> length (open_records s2) = length (open_records s1)
          \<and> length (missing_products s2) = length (missing_products s1) + length caught
          \<and> map fixed_fields (drop (length caught) (missing_products s2)) =
              map fixed_fields (missing_products s1)
          \<and> map (\<lambda>r. (m_sku r, m_status r, m_create_date r))
                (take (length caught) (missing_products s2)) =
              rev (map (\<lambda>(n, e). (record_key n e, Ignored, t)) caught)"
    unfolding Let_def
    by (intro conjI) (rule o, rule l, rule parts(1), rule parts(2), rule parts(3))
next
  assume "ascii_feed feed \<and> ascii_env s \<and> fetch_api_data feed = Some d \<and> (n, e) \<in> set (by_sku d)
        \<and> list_ex (is_open_record (record_key n e)) (missing_products s)"
  then have "list_ex (is_open_record (record_key n e)) (missing_products s)" by simp
  then show "length (missing_products (resolve_item skus (n, e) s)) = length (missing_products s)"
    and "map fixed_fields (missing_products (resolve_item skus (n, e) s)) =
          map fixed_fields (missing_products s)"
    by (rule resolve_item_in_place)+
next
  assume "ascii_feed feed \<and> ascii_env s \<and> fetch_api_data feed = Some d \<and> (n, e) \<in> set (by_sku d)
        \<and> n \<notin> skus \<and> \<not> prefix_rejected s e
        \<and> find (is_open_record (record_key n e)) (missing_products s) = Some r"
  then show "find (is_open_record (record_key n e)) (missing_products (resolve_item skus (n, e) s)) =
          Some (r\<lparr>m_sync_date := now s, m_quantity := qty e,
                  m_note := Some (Still_missing (qty e))\<rparr>)"
    by (simp add: resolve_item_touch)
qed


text \<open>
  The statement on the feed of two records and the two products, nothing matched: the
  first pass records "ZZ-9" with status missing and "ABC-123", which the guard catches,
  with status ignored; the second pass, at a later time, leaves the one row with status
  missing and adds one more ignored row for "ABC-123"; a further round for "ZZ-9"
  creates no row.
\<close>

theorem second_pass_adds_only_ignored_witness:
  "ascii_feed two_feed \<and> ascii_env two_env \<and> fetch_api_data two_feed = Some two_data
   \<and> map (\<lambda>r. (m_sku r, m_status r))
       (missing_products (snd (process_missing_products two_data {} two_env))) =
       [(''ZZ-9'', Missing), (''ABC-123'', Ignored)]
   \<and> length (open_records (snd (process_missing_products two_data {}
        ((snd (process_missing_products two_data {} two_env))\<lparr>now := 200000\<rparr>)))) = 1
   \<and> length (missing_products (snd (process_missing_products two_data {}
        ((snd (process_missing_products two_data {} two_env))\<lparr>now := 200000\<rparr>)))) = 3
   \<and> map (\<lambda>r. (m_sku r, m_status r, m_create_date r))
       (take 1 (missing_products (snd (process_missing_products two_data {}
          ((snd (process_missing_products two_data {} two_env))\<lparr>now := 200000\<rparr>))))) =
       [(''ABC-123'', Ignored, 200000)]
   \<and> ascii_env (snd (process_missing_products two_data {} two_env))
   \<and> (''ZZ9'', entry_zz) \<in> set (by_sku two_data)
   \<and> list_ex (is_open_record (record_key ''ZZ9'' entry_zz))
        (missing_products (snd (process_missing_products two_data {} two_env)))
   \<and> length (missing_products (resolve_item {} (''ZZ9'', entry_zz)
        (snd (process_missing_products two_data {} two_env)))) = 2"
proof -
  let ?s1 = "snd (process_missing_products two_data {} two_env)"
  let ?s2 = "snd (process_missing_products two_data {} (?s1\<lparr>now := 200000\<rparr>))"
  have a: "ascii_feed two_feed" by code_simp
  have b: "ascii_env two_env" by code_simp
  have c: "fetch_api_data two_feed = Some two_data" by (simp add: two_feed_def two_data_def)
  have d: "map (\<lambda>r. (m_sku r, m_status r)) (missing_products ?s1) =
             [(''ZZ-9'', Missing), (''ABC-123'', Ignored)]" by code_simp
  have e: "length (open_records ?s1) = 1" by code_simp
  have f: "length (missing_products ?s1) = 2" by code_simp
  have g: "filter (\<lambda>(n, e). n \<notin> {} \<and> \<not> prefix_rejected ?s1 e \<and>
                     \<not> list_ex (is_open_record (record_key n e)) (missing_products ?s1))
             (by_sku two_data) = [(''ABC123'', entry_abc)]" by code_simp
  have h: "record_key ''ABC123'' entry_abc = ''ABC-123''" by code_simp
  have i: "ascii_env ?s1" by code_simp
  have j: "(''ZZ9'', entry_zz) \<in> set (by_sku two_data)" by code_simp
  have k: "list_ex (is_open_record (record_key ''ZZ9'' entry_zz)) (missing_products ?s1)"
    by code_simp
  have T: "length (open_records ?s2) = length (open_records ?s1)
     \<and> length (missing_products ?s2) =
         length (missing_products ?s1) + length [(''ABC123'', entry_abc)]
     \<and> map (\<lambda>r. (m_sku r, m_status r, m_create_date r))
         (take (length [(''ABC123'', entry_abc)]) (missing_products ?s2)) =
         rev (map (\<lambda>(n, e). (record_key n e, Ignored, 200000)) [(''ABC123'', entry_abc)])"
    using second_pass_adds_only_ignored[where feed = two_feed and s = two_env
        and d = two_data and skus = "{}" and t = 200000] a b c
    unfolding Let_def g by blast
  have U: "length (missing_products (resolve_item {} (''ZZ9'', entry_zz) ?s1)) =
           length (missing_products ?s1)"
    using second_pass_adds_only_ignored[where feed = two_feed and s = ?s1
        and d = two_data and skus = "{}" and n = "''ZZ9''" and e = entry_zz] a i c j k
    by blast
  have T1: "length (open_records ?s2) = 1" using T e by simp
  have T2: "length (missing_products ?s2) = 3" using T f by simp
  have T3: "map (\<lambda>r. (m_sku r, m_status r, m_create_date r)) (take 1 (missing_products ?s2)) =
            [(''ABC-123'', Ignored, 200000)]"
    using T h by simp
  have U1: "length (missing_products (resolve_item {} (''ZZ9'', entry_zz) ?s1)) = 2"
    using U f by simp
  show ?thesis
    using a b c d i j k T1 T2 T3 U1 by simp
qed

text \<open>
  The claim fails for a SKU that the guard catches. The feed SKU "AB-100" matches no
  active product, and the inventory holds the archived product "AB100": the first run
  records "AB-100" with status ignored, and the second run, on the same feed and
  inventory, records it once more, since the lookup for an existing record asks for
  status missing.
\<close>

theorem ignored_record_duplicated_counterexample:
  "fetch_api_data (Envelope True (Some [scenario_item\<lparr>item_sku := PStr ''AB-100''\<rparr>])) =
     Some mirror_data
   \<and> map (\<lambda>r. (m_sku r, m_status r))
       (missing_products (snd (process_missing_products mirror_data {} mirror_env))) =
       [(''AB-100'', Ignored)]
   \<and> map (\<lambda>r. (m_sku r, m_status r))
       (missing_products (snd (process_missing_products mirror_data {}
          (snd (process_missing_products mirror_data {} mirror_env))))) =
       [(''AB-100'', Ignored), (''AB-100'', Ignored)]
   \<and> map (\<lambda>r. (m_sku r, m_status r))
       (missing_products
          (run_sync (Envelope True (Some [scenario_item\<lparr>item_sku := PStr ''AB-100''\<rparr>]))
             mirror_env)) =
       [(''AB-100'', Ignored)]
   \<and> map (\<lambda>r. (m_sku r, m_status r))
       (missing_products
          (run_sync (Envelope True (Some [scenario_item\<lparr>item_sku := PStr ''AB-100''\<rparr>]))
             (run_sync (Envelope True (Some [scenario_item\<lparr>item_sku := PStr ''AB-100''\<rparr>]))
                mirror_env))) =
       [(''AB-100'', Ignored), (''AB-100'', Ignored)]"
  by code_simp


subsection \<open>The matched set and the resolver\<close>

lemma set_update_subset: "set (AList.update k v al) \<subseteq> insert (k, v) (set al)"
  by (induction al) auto

lemma add_feed_item_by_sku:
  assumes "(k, e) \<in> set (by_sku (add_feed_item item d))"
  shows "(k, e) \<in> set (by_sku d) \<or> normalize_identifier (PStr (sku e)) = Some k"
proof -
  let ?n = "normalize_identifier (PStr (sanitize_identifier (item_sku item)))"
  show ?thesis
  proof (cases ?n)
    case None
    then have "by_sku (add_feed_item item d) = by_sku d"
      by (simp add: add_feed_item_def Let_def split: option.split)
    then show ?thesis using assms by simp
  next
    case (Some k')
    show ?thesis
    proof (cases "k' = []")
      case True
      then have "by_sku (add_feed_item item d) = by_sku d"
        using Some by (simp add: add_feed_item_def Let_def split: option.split)
      then show ?thesis using assms by simp
    next
      case False
      let ?e1 = "\<lparr> ext_id = sanitize_identifier (item_number item),
                    qty = (case southbay_stock item of None \<Rightarrow> Fin 0 | Some q \<Rightarrow> q),
                    sku = sanitize_identifier (item_sku item),
                    barcode = (if sanitize_identifier (item_barcode item) \<noteq> [] \<and>
                                  lower (sanitize_identifier (item_barcode item)) \<noteq> ''none''
                               then Some (sanitize_identifier (item_barcode item)) else None),
                    brand = sanitize_identifier (item_brand item),
                    normalized_sku = Some k' \<rparr>"
      have "by_sku (add_feed_item item d) = AList.update k' ?e1 (by_sku d)"
        using Some False by (simp add: add_feed_item_def Let_def split: option.split)
      then have "(k, e) \<in> insert (k', ?e1) (set (by_sku d))"
        using assms set_update_subset[of k' ?e1 "by_sku d"] by auto
      then show ?thesis using Some by auto
    qed
  qed
qed

lemma fold_add_by_sku:
  "(\<And>k e. (k, e) \<in> set (by_sku d) \<Longrightarrow> normalize_identifier (PStr (sku e)) = Some k) \<Longrightarrow>
   (k, e) \<in> set (by_sku (fold add_feed_item items d)) \<Longrightarrow>
   normalize_identifier (PStr (sku e)) = Some k"
proof (induction items arbitrary: d)
  case Nil
  then show ?case by simp
next
  case (Cons i items)
  show ?case
  proof (rule Cons.IH[of "add_feed_item i d"])
    fix k' e' assume "(k', e') \<in> set (by_sku (add_feed_item i d))"
    then show "normalize_identifier (PStr (sku e')) = Some k'"
      using add_feed_item_by_sku[of k' e' i d] Cons.prems(1) by blast
  next
    show "(k, e) \<in> set (by_sku (fold add_feed_item items (add_feed_item i d)))"
      using Cons.prems(2) by simp
  qed
qed

lemma fetch_by_sku:
  "fetch_api_data feed = Some d \<Longrightarrow> (k, e) \<in> set (by_sku d) \<Longrightarrow>
   normalize_identifier (PStr (sku e)) = Some k"
proof (cases feed)
  case (Envelope ok items)
  assume f: "fetch_api_data feed = Some d" and m: "(k, e) \<in> set (by_sku d)"
  show ?thesis
  proof (cases items)
    case None
    then show ?thesis using f Envelope by simp
  next
    case (Some its)
    then have d: "d = fold add_feed_item its \<lparr> by_sku = [], by_barcode = [] \<rparr>"
      using f Envelope by (simp split: if_splits)
    show ?thesis
      by (rule fold_add_by_sku[of "\<lparr> by_sku = [], by_barcode = [] \<rparr>" k e its])
         (use m d in simp_all)
  qed
qed simp_all

lemma normalize_strip_cong:
  "strip a = strip b \<Longrightarrow> normalize_identifier (PStr a) = normalize_identifier (PStr b)"
proof -
  assume h: "strip a = strip b"
  have "filter isalnum a = filter isalnum b"
    using filter_isalnum_strip[of a] filter_isalnum_strip[of b] h by simp
  then show ?thesis
    using h by (simp add: normalize_PStr is_none_text_def alnum_key_def)
qed

lemma normalize_Some_nonempty: "normalize_identifier (PStr a) = Some k \<Longrightarrow> a \<noteq> []"
  by (auto simp add: normalize_identifier_def)

lemma record_key_distinct:
  assumes "normalize_identifier (PStr (sku e)) = Some k"
    and "normalize_identifier (PStr (sku e2)) = Some k2" and "k2 \<noteq> k"
  shows "record_key k2 e2 \<noteq> record_key k e"
proof
  assume "record_key k2 e2 = record_key k e"
  then have "strip (sku e2) = strip (sku e)"
    using normalize_Some_nonempty[OF assms(1)] normalize_Some_nonempty[OF assms(2)]
    by (simp add: record_key_def)
  then have "normalize_identifier (PStr (sku e2)) = normalize_identifier (PStr (sku e))"
    by (rule normalize_strip_cong)
  then show False using assms by simp
qed

lemma write_first_filter:
  "(\<And>r. P r \<Longrightarrow> \<not> Q r) \<Longrightarrow> (\<And>r. Q (f r) = Q r) \<Longrightarrow>
   filter Q (write_first P f rs) = filter Q rs"
  by (induction rs) auto

lemma resolve_item_other_key:
  assumes "n \<in> M \<or> record_key n e \<noteq> K"
  shows "filter (\<lambda>r. m_sku r = K) (missing_products (resolve_item M (n, e) s)) =
         filter (\<lambda>r. m_sku r = K) (missing_products s)"
proof (cases "n \<in> M")
  case True
  then show ?thesis by (simp add: resolve_item_rows)
next
  case False
  then have ne: "record_key n e \<noteq> K" using assms by simp
  have w: "filter (\<lambda>r. m_sku r = K)
             (write_first (is_open_record (record_key n e))
                (\<lambda>r. r\<lparr>m_sync_date := now s, m_quantity := qty e,
                        m_note := Some (Still_missing (qty e))\<rparr>) (missing_products s)) =
           filter (\<lambda>r. m_sku r = K) (missing_products s)"
    by (rule write_first_filter) (use ne in \<open>auto simp add: is_open_record_def\<close>)
  have c: "filter (\<lambda>r. m_sku r = K) (missing_products (create (new_record_vals n e s) s)) =
           filter (\<lambda>r. m_sku r = K) (missing_products s)"
    using ne by (simp add: create_rows new_record_vals_sku)
  show ?thesis by (simp add: resolve_item_rows w c)
qed

lemma fold_resolve_other_key:
  "(\<And>n e. (n, e) \<in> set items \<Longrightarrow> n \<in> M \<or> record_key n e \<noteq> K) \<Longrightarrow>
   filter (\<lambda>r. m_sku r = K) (missing_products (fold (resolve_item M) items s)) =
   filter (\<lambda>r. m_sku r = K) (missing_products s)"
proof (induction items arbitrary: s)
  case Nil
  then show ?case by simp
next
  case (Cons x xs)
  obtain n e where x: "x = (n, e)" by (cases x)
  have "filter (\<lambda>r. m_sku r = K) (missing_products (fold (resolve_item M) xs (resolve_item M x s))) =
        filter (\<lambda>r. m_sku r = K) (missing_products (resolve_item M x s))"
    by (rule Cons.IH) (simp add: Cons.prems)
  also have "\<dots> = filter (\<lambda>r. m_sku r = K) (missing_products s)"
    unfolding x by (rule resolve_item_other_key) (simp add: Cons.prems x)
  finally show ?case by simp
qed

lemma matched_record_untouched:
  assumes f: "fetch_api_data feed = Some d" and n: "0 < chunk_size"
    and p: "p \<in> set (all_products s)" "\<not> item_raises d p s"
    and m: "item_match d p = (Some e, Some k)" "k \<noteq> []"
    and e': "(k, e') \<in> set (by_sku d)"
  shows "filter (\<lambda>r. m_sku r = record_key k e')
           (missing_products (snd (sync_products_chunked chunk_size feed s))) =
         filter (\<lambda>r. m_sku r = record_key k e') (missing_products s)"
proof -
  let ?M = "\<Union>p \<in> set (filter (\<lambda>p. \<not> item_raises d p s) (all_products s)). item_keys d p"
  let ?s1 = "chunks_state d
               (chunks (effective_chunk_size chunk_size (length (all_products s))) (all_products s)) s"
  have k: "k \<in> ?M" using p m by (auto simp add: item_keys_def)
  have wf: "normalize_identifier (PStr (sku e')) = Some k" by (rule fetch_by_sku[OF f e'])
  have other: "n' \<in> ?M \<or> record_key n' e2 \<noteq> record_key k e'"
    if "(n', e2) \<in> set (by_sku d)" for n' e2
  proof (cases "n' = k")
    case True
    then show ?thesis using k by simp
  next
    case False
    then show ?thesis
      using record_key_distinct[OF wf fetch_by_sku[OF f that]] by simp
  qed
  have "filter (\<lambda>r. m_sku r = record_key k e')
          (missing_products (fold (resolve_item ?M) (by_sku d) ?s1)) =
        filter (\<lambda>r. m_sku r = record_key k e') (missing_products ?s1)"
    by (rule fold_resolve_other_key) (rule other)
  then show ?thesis
    by (simp add: sync_products_chunked_state[OF f n] process_missing_products_env
        chunks_state_fields)
qed

lemma matched_record_after_run:
  assumes f: "fetch_api_data feed = Some d"
    and p: "p \<in> set (all_products s)" "\<not> item_raises d p s"
    and m: "item_match d p = (Some e, Some k)" "k \<noteq> []"
    and e': "(k, e') \<in> set (by_sku d)"
  shows "filter (\<lambda>r. m_sku r = record_key k e') (missing_products (run_sync feed s)) =
         filter (\<lambda>r. m_sku r = record_key k e') (missing_products (clear_previous_logs s))"
proof -
  have p': "p \<in> set (all_products (clear_previous_logs s))" using p(1) by (simp add: clear_fields)
  have r': "\<not> item_raises d p (clear_previous_logs s)" using p(2) by (simp add: item_raises_clear)
  have n: "(0::nat) < 100" by simp
  show ?thesis
    unfolding run_sync_state
    by (rule matched_record_untouched[OF f n p' r' m e'])
qed

lemma item_keys_eq:
  "item_keys d p = (case snd (item_match d p) of None \<Rightarrow> {} | Some k \<Rightarrow> if k = [] then {} else {k})"
  by (simp add: item_keys_def split: option.split)

lemma sync_products_chunked_pair:
  assumes "fetch_api_data feed = Some d" and "0 < chunk_size"
  shows "sync_products_chunked chunk_size feed s =
     (Inr (Some \<lparr> processed = length (filter (\<lambda>q. \<not> item_raises d q s) (all_products s)),
                  failed = failed_by_commit (commit_fails s) 1
                             (chunks (effective_chunk_size chunk_size (length (all_products s)))
                                (all_products s)),
                  matched_skus =
                    (\<Union>q \<in> set (filter (\<lambda>q. \<not> item_raises d q s) (all_products s)). item_keys d q) \<rparr>),
      snd (process_missing_products d
             (\<Union>q \<in> set (filter (\<lambda>q. \<not> item_raises d q s) (all_products s)). item_keys d q)
             (chunks_state d
                (chunks (effective_chunk_size chunk_size (length (all_products s)))
                   (all_products s)) s)))"
  by (rule prod_eqI)
     (simp_all only: fst_conv snd_conv sync_products_chunked_result[OF assms]
        sync_products_chunked_state[OF assms])

text \<open>
  Claim C9, as the code has it (ASCII texts). When the normalised SKU and the normalised
  barcode of a product each find a feed record, the record found by SKU is the match and
  the SKU is the matched key. When only the barcode finds a record, that record's own
  normalised SKU is the matched key, whatever the product's SKU. The matched set of a run
  is the set of the matched keys of the products processed without an exception (an
  exception is raised exactly when the stock is to be written and the stock location is
  unknown), and the resolver runs with that very set on the database the chunks leave,
  whose missing-products table is still untouched. So for a product processed without an
  exception the matched key is in the matched set, and the run neither creates nor
  rewrites a missing-products row for the feed record with that key; a single round of
  the resolver for a key of the set changes nothing.
\<close>

theorem matched_sku_excluded_unless_raised:
  "(lookup_key (by_sku d) n_sku = Some e1 \<and> lookup_key (by_barcode d) n_barcode = Some e2 \<longrightarrow>
      lookup_api d n_sku n_barcode = (Some e1, n_sku))
   \<and> (lookup_key (by_sku d) n_sku = None \<and> lookup_key (by_barcode d) n_barcode = Some e2
        \<and> normalized_sku e2 = Some k \<and> k \<noteq> [] \<longrightarrow>
      lookup_api d n_sku n_barcode = (Some e2, Some k))
   \<and> (ascii_product p \<longrightarrow>
        item_match d p =
          lookup_api d (normalize_identifier (PStr (sanitize_identifier (default_code p))))
                       (normalize_identifier (PStr (sanitize_identifier (p_barcode p))))
        \<and> item_keys d p =
            (case snd (item_match d p) of None \<Rightarrow> {} | Some k \<Rightarrow> if k = [] then {} else {k})
        \<and> item_raises d p s = (stock_changes d p \<and> stock_location s = None))
   \<and> (ascii_feed feed \<and> ascii_env s \<and> fetch_api_data feed = Some d \<and> 0 < chunk_size \<longrightarrow>
        sync_products_chunked chunk_size feed s =
          (Inr (Some \<lparr> processed = length (filter (\<lambda>q. \<not> item_raises d q s) (all_products s)),
                       failed = failed_by_commit (commit_fails s) 1
                                  (chunks (effective_chunk_size chunk_size (length (all_products s)))
                                     (all_products s)),
                       matched_skus =
                         (\<Union>q \<in> set (filter (\<lambda>q. \<not> item_raises d q s) (all_products s)).
                             item_keys d q) \<rparr>),
           snd (process_missing_products d
                  (\<Union>q \<in> set (filter (\<lambda>q. \<not> item_raises d q s) (all_products s)). item_keys d q)
                  (chunks_state d
                     (chunks (effective_chunk_size chunk_size (length (all_products s)))
                        (all_products s)) s)))
        \<and> missing_products
            (chunks_state d
               (chunks (effective_chunk_size chunk_size (length (all_products s)))
                  (all_products s)) s) = missing_products s)
   \<and> (ascii_feed feed \<and> ascii_env s \<and> fetch_api_data feed = Some d
        \<and> p \<in> set (all_products s) \<and> \<not> item_raises d p s
        \<and> item_match d p = (Some e, Some k) \<and> k \<noteq> [] \<longrightarrow>
        (\<exists>st. fst (sync_products_chunked 100 feed (clear_previous_logs s)) = Inr (Some st)
              \<and> k \<in> matched_skus st)
        \<and> ((k, e') \<in> set (by_sku d) \<longrightarrow>
             filter (\<lambda>r. m_sku r = record_key k e') (missing_products (run_sync feed s)) =
             filter (\<lambda>r. m_sku r = record_key k e') (missing_products (clear_previous_logs s))))
   \<and> (k \<in> processed_skus \<longrightarrow> missing_step processed_skus (k, e') acc = acc)"
proof (intro conjI impI)
  assume "lookup_key (by_sku d) n_sku = Some e1 \<and> lookup_key (by_barcode d) n_barcode = Some e2"
  then show "lookup_api d n_sku n_barcode = (Some e1, n_sku)"
    by (simp add: lookup_api_sku)
next
  assume "lookup_key (by_sku d) n_sku = None \<and> lookup_key (by_barcode d) n_barcode = Some e2
        \<and> normalized_sku e2 = Some k \<and> k \<noteq> []"
  then show "lookup_api d n_sku n_barcode = (Some e2, Some k)"
    by (simp add: lookup_api_barcode)
next
  show "item_match d p =
       lookup_api d (normalize_identifier (PStr (sanitize_identifier (default_code p))))
                    (normalize_identifier (PStr (sanitize_identifier (p_barcode p))))"
    by (simp add: item_match_def)
next
  show "item_keys d p =
       (case snd (item_match d p) of None \<Rightarrow> {} | Some k \<Rightarrow> if k = [] then {} else {k})"
    by (rule item_keys_eq)
next
  show "item_raises d p s = (stock_changes d p \<and> stock_location s = None)"
    by (rule item_raises_eq)
next
  assume h: "ascii_feed feed \<and> ascii_env s \<and> fetch_api_data feed = Some d \<and> 0 < chunk_size"
  then have f: "fetch_api_data feed = Some d" and n: "0 < chunk_size" by simp_all
  show "sync_products_chunked chunk_size feed s =
          (Inr (Some \<lparr> processed = length (filter (\<lambda>q. \<not> item_raises d q s) (all_products s)),
                       failed = failed_by_commit (commit_fails s) 1
                                  (chunks (effective_chunk_size chunk_size (length (all_products s)))
                                     (all_products s)),
                       matched_skus =
                         (\<Union>q \<in> set (filter (\<lambda>q. \<not> item_raises d q s) (all_products s)).
                             item_keys d q) \<rparr>),
           snd (process_missing_products d
                  (\<Union>q \<in> set (filter (\<lambda>q. \<not> item_raises d q s) (all_products s)). item_keys d q)
                  (chunks_state d
                     (chunks (effective_chunk_size chunk_size (length (all_products s)))
                        (all_products s)) s)))"
    by (rule sync_products_chunked_pair[OF f n])
next
  show "missing_products
            (chunks_state d
               (chunks (effective_chunk_size chunk_size (length (all_products s)))
                  (all_products s)) s) = missing_products s"
    by (simp add: chunks_state_fields)
next
  assume h: "ascii_feed feed \<and> ascii_env s \<and> fetch_api_data feed = Some d
        \<and> p \<in> set (all_products s) \<and> \<not> item_raises d p s
        \<and> item_match d p = (Some e, Some k) \<and> k \<noteq> []"
  then have f: "fetch_api_data feed = Some d" by simp
  have n: "(0::nat) < 100" by simp
  from h have k: "k \<in> item_keys d p" by (simp add: item_keys_def)
  have r: "fst (sync_products_chunked 100 feed (clear_previous_logs s)) =
     Inr (Some \<lparr> processed = length (filter (\<lambda>p. \<not> item_raises d p s) (all_products s)),
                 failed = failed_by_commit (commit_fails (clear_previous_logs s)) 1
                            (chunks (effective_chunk_size 100 (length (all_products s)))
                               (all_products s)),
                 matched_skus =
                   (\<Union>p \<in> set (filter (\<lambda>p. \<not> item_raises d p s) (all_products s)). item_keys d p) \<rparr>)"
    using sync_products_chunked_result[OF f n, of "clear_previous_logs s"]
    by (simp add: clear_fields item_raises_clear)
  show "\<exists>st. fst (sync_products_chunked 100 feed (clear_previous_logs s)) = Inr (Some st)
              \<and> k \<in> matched_skus st"
    unfolding r using h k by auto
next
  assume h: "ascii_feed feed \<and> ascii_env s \<and> fetch_api_data feed = Some d
        \<and> p \<in> set (all_products s) \<and> \<not> item_raises d p s
        \<and> item_match d p = (Some e, Some k) \<and> k \<noteq> []"
    and e': "(k, e') \<in> set (by_sku d)"
  show "filter (\<lambda>r. m_sku r = record_key k e') (missing_products (run_sync feed s)) =
        filter (\<lambda>r. m_sku r = record_key k e') (missing_products (clear_previous_logs s))"
    by (rule matched_record_after_run[where p = p and e = e]) (use h e' in simp_all)
next
  assume "k \<in> processed_skus"
  then show "missing_step processed_skus (k, e') acc = acc"
    by (cases acc) (auto simp add: missing_step_def)
qed


text \<open>
  The statement on the feed of two records: the product with the SKU "ABC123" and the
  barcode "111" is matched by SKU; the product without a SKU is matched by the barcode
  "111", the key "ZZ9" of that record enters the matched set, and the run records neither
  feed record as missing.
\<close>

theorem matched_sku_excluded_unless_raised_witness:
  "lookup_key (by_sku two_data) (Some ''ABC123'') = Some entry_abc
   \<and> lookup_key (by_barcode two_data) (Some ''111'') = Some entry_zz
   \<and> lookup_api two_data (Some ''ABC123'') (Some ''111'') = (Some entry_abc, Some ''ABC123'')
   \<and> lookup_key (by_sku two_data) (Some ''FALSE'') = None
   \<and> normalized_sku entry_zz = Some ''ZZ9''
   \<and> lookup_api two_data (Some ''FALSE'') (Some ''111'') = (Some entry_zz, Some ''ZZ9'')
   \<and> ascii_product product_barcode_only
   \<and> item_keys two_data product_barcode_only = {''ZZ9''}
   \<and> \<not> item_raises two_data product_barcode_only two_env
   \<and> ascii_feed two_feed \<and> ascii_env two_env \<and> fetch_api_data two_feed = Some two_data
   \<and> (0::nat) < 100
   \<and> fst (sync_products_chunked 100 two_feed two_env) =
        Inr (Some \<lparr> processed = 2, failed = 0, matched_skus = {''ABC123'', ''ZZ9''} \<rparr>)
   \<and> product_barcode_only \<in> set (all_products two_env)
   \<and> item_match two_data product_barcode_only = (Some entry_zz, Some ''ZZ9'')
   \<and> (\<exists>st. fst (sync_products_chunked 100 two_feed (clear_previous_logs two_env)) = Inr (Some st)
           \<and> ''ZZ9'' \<in> matched_skus st)
   \<and> (''ZZ9'', entry_zz) \<in> set (by_sku two_data)
   \<and> filter (\<lambda>r. m_sku r = ''ZZ-9'') (missing_products (run_sync two_feed two_env)) = []
   \<and> missing_step {''ZZ9''} (''ZZ9'', entry_zz) ((0, 0), two_env) = ((0, 0), two_env)"
proof -
  have a: "lookup_key (by_sku two_data) (Some ''ABC123'') = Some entry_abc" by code_simp
  have b: "lookup_key (by_barcode two_data) (Some ''111'') = Some entry_zz" by code_simp
  have c: "lookup_key (by_sku two_data) (Some ''FALSE'') = None" by code_simp
  have d: "normalized_sku entry_zz = Some ''ZZ9''" by (simp add: entry_zz_def)
  have e: "fetch_api_data two_feed = Some two_data" by (simp add: two_feed_def two_data_def)
  have f: "product_barcode_only \<in> set (all_products two_env)" by code_simp
  have g: "\<not> item_raises two_data product_barcode_only two_env" by code_simp
  have h: "item_match two_data product_barcode_only = (Some entry_zz, Some ''ZZ9'')" by code_simp
  have i: "ascii_feed two_feed" by code_simp
  have j: "ascii_env two_env" by code_simp
  have k: "ascii_product product_barcode_only" by code_simp
  have l: "(''ZZ9'', entry_zz) \<in> set (by_sku two_data)" by code_simp
  have m: "record_key ''ZZ9'' entry_zz = ''ZZ-9''" by code_simp
  have n: "missing_products (clear_previous_logs two_env) = []" by code_simp
  have o: "length (filter (\<lambda>q. \<not> item_raises two_data q two_env) (all_products two_env)) = 2"
    by code_simp
  have p: "failed_by_commit (commit_fails two_env) 1
             (chunks (effective_chunk_size 100 (length (all_products two_env)))
                (all_products two_env)) = 0"
    by code_simp
  have q: "(\<Union>q \<in> set (filter (\<lambda>q. \<not> item_raises two_data q two_env) (all_products two_env)).
              item_keys two_data q) = {''ABC123'', ''ZZ9''}"
    by code_simp
  have z: "(0::nat) < 100" by simp
  note T = matched_sku_excluded_unless_raised[where d = two_data and feed = two_feed
      and s = two_env and chunk_size = 100 and p = product_barcode_only and e = entry_zz
      and k = "''ZZ9''" and e' = entry_zz and processed_skus = "{''ZZ9''}"
      and acc = "((0, 0), two_env)"]
  have p1: "lookup_api two_data (Some ''ABC123'') (Some ''111'') = (Some entry_abc, Some ''ABC123'')"
    using T[where n_sku = "Some ''ABC123''" and n_barcode = "Some ''111''"
        and ?e1.0 = entry_abc and ?e2.0 = entry_zz] a b
    by blast
  have p2: "lookup_api two_data (Some ''FALSE'') (Some ''111'') = (Some entry_zz, Some ''ZZ9'')"
    using T[where n_sku = "Some ''FALSE''" and n_barcode = "Some ''111''"
        and ?e2.0 = entry_zz] b c d
    by simp
  have p3: "item_keys two_data product_barcode_only =
       (case snd (item_match two_data product_barcode_only) of
          None \<Rightarrow> {} | Some k \<Rightarrow> if k = [] then {} else {k})"
    using T k by blast
  have p4: "sync_products_chunked 100 two_feed two_env =
          (Inr (Some \<lparr> processed = length (filter (\<lambda>q. \<not> item_raises two_data q two_env)
                                              (all_products two_env)),
                       failed = failed_by_commit (commit_fails two_env) 1
                                  (chunks (effective_chunk_size 100 (length (all_products two_env)))
                                     (all_products two_env)),
                       matched_skus =
                         (\<Union>q \<in> set (filter (\<lambda>q. \<not> item_raises two_data q two_env)
                                        (all_products two_env)).
                             item_keys two_data q) \<rparr>),
           snd (process_missing_products two_data
                  (\<Union>q \<in> set (filter (\<lambda>q. \<not> item_raises two_data q two_env)
                                 (all_products two_env)). item_keys two_data q)
                  (chunks_state two_data
                     (chunks (effective_chunk_size 100 (length (all_products two_env)))
                        (all_products two_env)) two_env)))"
    using T i j e z by blast
  have p4': "fst (sync_products_chunked 100 two_feed two_env) =
        Inr (Some \<lparr> processed = 2, failed = 0, matched_skus = {''ABC123'', ''ZZ9''} \<rparr>)"
    unfolding p4 fst_conv o p q by (rule refl)
  have p5: "(\<exists>st. fst (sync_products_chunked 100 two_feed (clear_previous_logs two_env)) =
                  Inr (Some st) \<and> ''ZZ9'' \<in> matched_skus st)
     \<and> ((''ZZ9'', entry_zz) \<in> set (by_sku two_data) \<longrightarrow>
          filter (\<lambda>r. m_sku r = record_key ''ZZ9'' entry_zz)
            (missing_products (run_sync two_feed two_env)) =
          filter (\<lambda>r. m_sku r = record_key ''ZZ9'' entry_zz)
            (missing_products (clear_previous_logs two_env)))"
    using T i j e f g h by simp
  have p6: "missing_step {''ZZ9''} (''ZZ9'', entry_zz) ((0, 0), two_env) = ((0, 0), two_env)"
    using T by simp
  have p3': "item_keys two_data product_barcode_only = {''ZZ9''}"
    unfolding p3 h by simp
  have p5': "filter (\<lambda>r. m_sku r = ''ZZ-9'') (missing_products (run_sync two_feed two_env)) = []"
    using p5 l unfolding m n by simp
  show ?thesis
    using a b c d e f g h i j k l p1 p2 p3' p4' p5 p5' p6 by simp
qed

text \<open>
  The claim fails for an item whose processing raises. In the database without a stock
  location the product without a SKU is matched by the barcode "111" to the record
  "ZZ-9", but its stock write raises: the key "ZZ9" is not added, the matched set of the
  run is empty, and the run records "ZZ-9" with status missing.
\<close>

theorem raised_item_key_not_added_counterexample:
  "item_match two_data product_barcode_only = (Some entry_zz, Some ''ZZ9'')
   \<and> product_barcode_only \<in> set (all_products unlocated_env)
   \<and> item_raises two_data product_barcode_only unlocated_env
   \<and> fst (sync_products_chunked 100 two_feed (clear_previous_logs unlocated_env)) =
        Inr (Some \<lparr> processed = 0, failed = 0, matched_skus = {} \<rparr>)
   \<and> map (\<lambda>r. (m_sku r, m_status r)) (missing_products (run_sync two_feed unlocated_env)) =
        [(''ZZ-9'', Missing), (''ABC-123'', Ignored)]"
  by code_simp

end
